theory Spec2Isabelle
  imports Complex_Main
begin

section \<open>The drag renderer of \<^verbatim>\<open>viz/renderer_pickable.py\<close>\<close>

text \<open>
  The theory embeds the class \<^verbatim>\<open>Renderer\<close>: the point tracker and the motion
  supervision loop of \<^verbatim>\<open>_render_drag_impl\<close>, the session attributes they read and
  write, \<^verbatim>\<open>init_network\<close>, \<^verbatim>\<open>get_network\<close> and \<^verbatim>\<open>render\<close>.
  Tensor entries are exact reals (no rounding of float32), and the networks, the
  interpolation, the loss terms and the Adam update are collaborators taken as parameters.
  A method that can raise after it has changed \<^verbatim>\<open>self\<close> or \<^verbatim>\<open>res\<close> returns the
  exception, if any, together with the session and the result as they then are.
\<close>

subsection \<open>Exceptions\<close>

datatype exn =
    KeyError string
  | AttributeError string
  | IndexError
  | TypeError
  | NameError
  | LinAlgError
  | RuntimeError
  | ValueError
  | External string

subsection \<open>Points, feature vectors and feature maps\<close>

text \<open>
  A point is the Python list \<^verbatim>\<open>[row, column]\<close> of two integers. A feature map is
  the tensor \<^verbatim>\<open>feat_resize\<close> of shape \<open>(1, C, h, w)\<close>, read as the function
  giving the channel vector \<^verbatim>\<open>feat_resize[0, :, y, x]\<close>; all its vectors and the
  reference vectors of one layer have the same number of channels.
\<close>

type_synonym point = "int \<times> int"
type_synonym vec = "real list"
type_synonym featmap = "int \<Rightarrow> int \<Rightarrow> vec"

text \<open>\<^verbatim>\<open>torch.linalg.norm(a - b, dim=1)\<close>: the Euclidean norm over the channels.\<close>

definition l2dist :: "vec \<Rightarrow> vec \<Rightarrow> real" where
  "l2dist a b = sqrt (\<Sum>p\<leftarrow>zip a b. (fst p - snd p)\<^sup>2)"

text \<open>Python's \<^verbatim>\<open>round\<close> of a float: to the nearest integer, a tie to the even one.\<close>

definition py_round :: "real \<Rightarrow> int" where
  "py_round x =
     (let f = \<lfloor>x\<rfloor>; d = x - of_int f
      in if d < 1 / 2 then f else if 1 / 2 < d then f + 1
         else if even f then f else f + 1)"

text \<open>
  A slice bound \<^verbatim>\<open>i\<close> of \<^verbatim>\<open>t[i:j]\<close> on a dimension of size \<open>n\<close>: a negative bound
  counts from the end, and every bound is clamped to \<open>[0, n]\<close>.
\<close>

definition slice_bound :: "int \<Rightarrow> int \<Rightarrow> int" where
  "slice_bound n i = (if i < 0 then max (i + n) 0 else min i n)"

definition slice_range :: "int \<Rightarrow> int \<Rightarrow> int \<Rightarrow> int list" where
  "slice_range n i j = [slice_bound n i .. slice_bound n j - 1]"

text \<open>
  \<^verbatim>\<open>torch.min(v, -1)\<close> on a flat vector: the index of the first minimal entry.
  \<open>argmin_from\<close> scans with the best index so far.
\<close>

fun argmin_from :: "real list \<Rightarrow> nat \<Rightarrow> nat \<Rightarrow> real \<Rightarrow> nat" where
  "argmin_from [] i b m = b"
| "argmin_from (x # xs) i b m =
     (if x < m then argmin_from xs (Suc i) i x else argmin_from xs (Suc i) b m)"

definition argmin_first :: "real list \<Rightarrow> nat" where
  "argmin_first xs = (case xs of [] \<Rightarrow> 0 | x # ys \<Rightarrow> argmin_from ys 1 0 x)"

subsection \<open>Point tracking\<close>

text \<open>
  One iteration of the loop \<^verbatim>\<open>for j, point in enumerate(points)\<close> under
  \<^verbatim>\<open>torch.no_grad()\<close>: the patch \<^verbatim>\<open>feat_resize[:,:,up:down,left:right]\<close>, its
  distances to the reference vector flattened row by row, and the new point
  \<^verbatim>\<open>[idx // width + up, idx % width + left]\<close>. \<^verbatim>\<open>torch.min\<close> raises on an empty
  patch.
\<close>

definition patch_dists :: "featmap \<Rightarrow> vec \<Rightarrow> int list \<Rightarrow> int list \<Rightarrow> real list" where
  "patch_dists feat_resize ref rows cols =
     concat (map (\<lambda>y. map (\<lambda>x. l2dist (feat_resize y x) ref) cols) rows)"

definition track_point :: "featmap \<Rightarrow> int \<Rightarrow> int \<Rightarrow> int \<Rightarrow> vec \<Rightarrow> point \<Rightarrow> exn + point" where
  "track_point feat_resize h w r ref point =
     (let up = max (fst point - r) 0;
          down = min (fst point + r + 1) h;
          left = max (snd point - r) 0;
          right = min (snd point + r + 1) w;
          L2 = patch_dists feat_resize ref (slice_range h up down) (slice_range w left right)
      in if L2 = [] then Inl RuntimeError
         else let idx = int (argmin_first L2); width = right - left
              in Inr (idx div width + up, idx mod width + left))"

text \<open>
  The whole loop. \<^verbatim>\<open>points[j] = point\<close> overwrites the list in place, so an exception
  (\<^verbatim>\<open>self.feat_refs[j]\<close> on a list that is too short, or an empty patch) leaves the
  points before \<open>j\<close> relocated and the others as they were: the function returns the
  exception, if any, and the list as it then is.
\<close>

fun track_points ::
  "featmap \<Rightarrow> int \<Rightarrow> int \<Rightarrow> int \<Rightarrow> vec list \<Rightarrow> nat \<Rightarrow> point list
     \<Rightarrow> exn option \<times> point list" where
  "track_points feat_resize h w r refs j [] = (None, [])"
| "track_points feat_resize h w r refs j (point # rest) =
     (if length refs \<le> j then (Some IndexError, point # rest)
      else case track_point feat_resize h w r (refs ! j) point of
             Inl e \<Rightarrow> (Some e, point # rest)
           | Inr p \<Rightarrow>
               (case track_points feat_resize h w r refs (Suc j) rest of
                  (e, ps) \<Rightarrow> (e, p # ps)))"

text \<open>\<^verbatim>\<open>r = round(r2 / 512 * h)\<close>.\<close>

definition search_radius :: "real \<Rightarrow> int \<Rightarrow> int" where
  "search_radius r2 h = py_round (r2 / 512 * of_int h)"

subsection \<open>Motion supervision: the stop flag\<close>

text \<open>
  \<^verbatim>\<open>direction = [targets[j][1] - point[1], targets[j][0] - point[0]]\<close> and its norm.
\<close>

definition direction :: "point \<Rightarrow> point \<Rightarrow> real \<times> real" where
  "direction target point =
     (of_int (snd target - snd point), of_int (fst target - fst point))"

definition norm2 :: "real \<times> real \<Rightarrow> real" where
  "norm2 d = sqrt ((fst d)\<^sup>2 + (snd d)\<^sup>2)"

definition stop_threshold :: "int \<Rightarrow> real" where
  "stop_threshold h = max (2 / 512 * of_int h) 2"

text \<open>
  The loop over the tracked points. The accumulator is \<^verbatim>\<open>(res.stop, loss_motion)\<close>;
  \<open>motion_term\<close> is the L1 term of one point (grid sampling of the feature map), given
  the point and its unnormalised direction. \<^verbatim>\<open>targets[j]\<close> raises when \<^verbatim>\<open>targets\<close> is
  shorter than \<^verbatim>\<open>points\<close>; \<^verbatim>\<open>res.stop\<close> then keeps the value it had.
\<close>

fun motion_loop ::
  "(point \<Rightarrow> real \<times> real \<Rightarrow> real) \<Rightarrow> int \<Rightarrow> point list \<Rightarrow> nat \<Rightarrow> point list
     \<Rightarrow> bool \<times> real \<Rightarrow> exn option \<times> bool \<times> real" where
  "motion_loop motion_term h targets j [] acc = (None, acc)"
| "motion_loop motion_term h targets j (point # rest) acc =
     (if length targets \<le> j then (Some IndexError, acc)
      else let d = direction (targets ! j) point;
               stop = (if stop_threshold h < norm2 d then False else fst acc);
               loss = (if 1 < norm2 d then snd acc + motion_term point d else snd acc)
           in motion_loop motion_term h targets (Suc j) rest (stop, loss))"

definition motion_supervision ::
  "(point \<Rightarrow> real \<times> real \<Rightarrow> real) \<Rightarrow> int \<Rightarrow> point list \<Rightarrow> point list
     \<Rightarrow> exn option \<times> bool \<times> real" where
  "motion_supervision motion_term h targets points =
     motion_loop motion_term h targets 0 points (True, 0)"

subsection \<open>Tensors, latent codes, networks\<close>

text \<open>
  A tensor the code only hands on (image, mask, Adam moments, \<^verbatim>\<open>points0_pt\<close>) is its
  shape and its entries. The latent \<^verbatim>\<open>self.w\<close> has either two dimensions, \<open>(1, D)\<close>, or
  three, \<open>(1, L, D)\<close>; \<^verbatim>\<open>self.w0\<close> always has three and is the list of its layers.
\<close>

datatype tensor = Tensor (shape: "nat list") (entries: "real list")

datatype latent = W2 vec | W3 "vec list"

type_synonym mat3 = "(real \<times> real \<times> real) \<times> (real \<times> real \<times> real) \<times> (real \<times> real \<times> real)"

definition eye3 :: mat3 where
  "eye3 = ((1, 0, 0), (0, 1, 0), (0, 0, 1))"

text \<open>
  The generator \<^verbatim>\<open>G\<close>: the attributes the renderer reads. \<open>transform\<close> is
  \<^verbatim>\<open>G.synthesis.input.transform\<close>, \<open>None\<close> when the network has no such attribute.
\<close>

record network =
  img_resolution :: int
  num_ws :: nat
  c_dim :: nat
  has_noise_const :: bool
  transform :: "mat3 option"
  weights :: tensor

record optimizer =
  lr :: real
  moments :: "tensor list"

subsection \<open>Session attributes, call arguments, result\<close>

text \<open>
  The attributes of \<^verbatim>\<open>self\<close>. An attribute that \<^verbatim>\<open>__init__\<close> does not create is an
  option: \<open>None\<close> while \<^verbatim>\<open>hasattr\<close> is false. \<^verbatim>\<open>feat_refs\<close> and \<^verbatim>\<open>points0_pt\<close> can
  also hold Python's \<^verbatim>\<open>None\<close>, the inner option. \<open>self_w_grad\<close> is \<^verbatim>\<open>self.w.grad\<close>.
  The caches are keyed by the pickle name (and the key \<^verbatim>\<open>'G_ema'\<close>), which determines
  the cached object. The timing flag, the pinned buffers and the colour maps are left out.
\<close>

record session =
  self_pkl_data :: "string \<rightharpoonup> exn + (string \<rightharpoonup> network)"
  self_networks :: "string \<times> string \<rightharpoonup> exn + network"
  self_is_old :: bool
  self_mean_latent :: "tensor option"
  self_G :: "network option"
  self_pkl :: "string option option"
  self_w0_seed :: "int option"
  self_w_plus :: "bool option"
  self_w0 :: "vec list option"
  self_w :: "latent option"
  self_w_grad :: "latent option"
  self_w_optim :: "optimizer option"
  self_feat_refs :: "vec list option option"
  self_points0_pt :: "tensor option option"
  self_feat0_resize :: "featmap option"
  self_points :: "point list option"

text \<open>
  The keyword arguments of \<^verbatim>\<open>render\<close>. Those read as \<^verbatim>\<open>args['...']\<close> are options,
  \<open>None\<close> when the caller left the key out; the others hold the value after defaults.
\<close>

record args =
  a_pkl :: "string option"
  a_w0_seed :: "int option"
  a_w_plus :: "bool option"
  a_reset_w :: "bool option"
  a_input_transform :: "mat3 option"
  a_lr :: real
  a_trunc_psi :: real
  a_trunc_cutoff :: "nat option"
  a_noise_mode :: string
  a_points :: "point list"
  a_targets :: "point list"
  a_mask :: "tensor option"
  a_lambda_mask :: real
  a_reg :: real
  a_feature_idx :: int
  a_r1 :: real
  a_r2 :: real
  a_img_scale_db :: real
  a_img_normalize :: bool
  a_to_pil :: bool
  a_is_drag :: bool
  a_reset :: bool

text \<open>The \<^verbatim>\<open>EasyDict\<close> \<^verbatim>\<open>res\<close>: a field is \<open>None\<close> while the key is absent.\<close>

record result =
  r_init_net :: "bool option"
  r_img_resolution :: "int option"
  r_num_ws :: "nat option"
  r_has_noise :: "bool option"
  r_has_input_transform :: "bool option"
  r_error :: "exn option"
  r_points :: "point list option"
  r_stop :: "bool option"
  r_image :: "tensor option"

definition empty_result :: result where
  "empty_result = \<lparr>r_init_net = None, r_img_resolution = None, r_num_ws = None,
     r_has_noise = None, r_has_input_transform = None, r_error = None, r_points = None,
     r_stop = None, r_image = None\<rparr>"

text \<open>
  The collaborators: loading a pickle (\<^verbatim>\<open>torch.load\<close> or \<^verbatim>\<open>legacy.load_network_pkl\<close>,
  the flag says which), building the generator from it, the mean latent of an old
  generator, \<^verbatim>\<open>np.linalg.inv\<close> on a 3 by 3 matrix (\<open>None\<close> when it raises
  \<^verbatim>\<open>LinAlgError\<close>, which it does when its factorization in floating point meets a pivot
  that is exactly zero: not on every matrix of determinant 0), the mapping network on the
  latent drawn from a seed, the synthesis network returning the image and the feature
  maps, \<^verbatim>\<open>F.interpolate\<close>, the loss terms, the three optimizer calls \<^verbatim>\<open>zero_grad\<close>,
  \<^verbatim>\<open>backward\<close>, \<^verbatim>\<open>step\<close> taken together (a function of the session, the arguments and
  the tracked points, which determine the graph of the loss), and the conversion of the
  image to 8 bits.
\<close>

record env =
  load_pkl :: "bool \<Rightarrow> string \<Rightarrow> exn + (string \<rightharpoonup> network)"
  build_net :: "string \<Rightarrow> network \<Rightarrow> exn + network"
  mean_latent_of :: "network \<Rightarrow> exn + tensor"
  linalg_inv :: "mat3 \<Rightarrow> mat3 option"
  mapping :: "network \<Rightarrow> int \<Rightarrow> real \<Rightarrow> nat option \<Rightarrow> exn + vec list"
  style_forward :: "network \<Rightarrow> int \<Rightarrow> exn + vec"
  synthesis :: "bool \<Rightarrow> network \<Rightarrow> tensor option \<Rightarrow> vec list \<Rightarrow> real \<Rightarrow> string
                  \<Rightarrow> exn + tensor \<times> featmap list"
  interpolate :: "featmap \<Rightarrow> int \<Rightarrow> int \<Rightarrow> featmap"
  motion_term :: "featmap \<Rightarrow> int \<Rightarrow> real \<Rightarrow> point \<Rightarrow> real \<times> real \<Rightarrow> real"
  loss_fix :: "featmap \<Rightarrow> featmap \<Rightarrow> tensor \<Rightarrow> real"
  l1_latent :: "vec list \<Rightarrow> vec list \<Rightarrow> real"
  optim_step :: "session \<Rightarrow> args \<Rightarrow> point list \<Rightarrow> latent \<Rightarrow> optimizer \<Rightarrow> real
                   \<Rightarrow> exn + latent \<times> latent option \<times> optimizer"
  postprocess :: "tensor \<Rightarrow> bool \<Rightarrow> real \<Rightarrow> bool \<Rightarrow> tensor"

subsection \<open>\<^verbatim>\<open>get_network\<close>\<close>

text \<open>\<^verbatim>\<open>sub in s\<close> on strings.\<close>

fun is_substring :: "string \<Rightarrow> string \<Rightarrow> bool" where
  "is_substring sub [] = (sub = [])"
| "is_substring sub (c # cs) = (take (length sub) (c # cs) = sub \<or> is_substring sub cs)"

text \<open>
  The first half: the pickle cache. A failed load is stored as the captured exception and
  raised again on every later call.
\<close>

definition get_pkl_data ::
  "env \<Rightarrow> session \<Rightarrow> string \<Rightarrow> (exn + (string \<rightharpoonup> network)) \<times> session" where
  "get_pkl_data env s pkl =
     (let s1 = s\<lparr>self_is_old := is_substring ''stylegan2-old'' pkl\<rparr>
      in case self_pkl_data s1 pkl of
           Some data \<Rightarrow> (data, s1)
         | None \<Rightarrow>
             (let data = load_pkl env (is_substring ''stylegan2-old'' pkl) pkl
              in (data, s1\<lparr>self_pkl_data := (self_pkl_data s1)(pkl \<mapsto> data)\<rparr>)))"

text \<open>
  The second half, on a cache miss: the family of the generator is inferred from the
  name, an old generator is used as it is (and its mean latent stored), another one is
  built from the pickled arguments. Any exception is captured and cached.
\<close>

definition make_network ::
  "env \<Rightarrow> session \<Rightarrow> string \<Rightarrow> network \<Rightarrow> (exn + network) \<times> session" where
  "make_network env s pkl orig_net =
     (if \<not> (is_substring ''stylegan2'' pkl \<or> is_substring ''stylegan3'' pkl
             \<or> is_substring ''stylegan_human'' pkl)
      then (Inl NameError, s)
      else if is_substring ''stylegan2-old'' pkl
      then (case mean_latent_of env orig_net of
              Inl e \<Rightarrow> (Inl e, s)
            | Inr ml \<Rightarrow> (Inr orig_net, s\<lparr>self_mean_latent := Some ml\<rparr>))
      else (build_net env pkl orig_net, s))"

definition get_network ::
  "env \<Rightarrow> session \<Rightarrow> string option \<Rightarrow> string \<Rightarrow> (exn + network) \<times> session" where
  "get_network env s pkl_arg key =
     (case pkl_arg of
        None \<Rightarrow> (Inl TypeError, s)
      | Some pkl \<Rightarrow>
          (case get_pkl_data env s pkl of
             (Inl e, s2) \<Rightarrow> (Inl e, s2)
           | (Inr data, s2) \<Rightarrow>
               (case data key of
                  None \<Rightarrow> (Inl (KeyError key), s2)
                | Some orig_net \<Rightarrow>
                    (case self_networks s2 (pkl, key) of
                       Some net \<Rightarrow> (net, s2)
                     | None \<Rightarrow>
                         (case make_network env s2 pkl orig_net of
                            (net, s3) \<Rightarrow>
                              (net, s3\<lparr>self_networks :=
                                         (self_networks s3)((pkl, key) \<mapsto> net)\<rparr>))))))"

subsection \<open>\<^verbatim>\<open>init_network\<close>\<close>

text \<open>
  "Dig up network details": the fields written to \<^verbatim>\<open>res\<close>, and the resolution forced
  to 512 on an old generator. The generator is the object that the cache holds; the
  resolution and the transform written into it here are written again at every
  initialization before they are read, so the cache keeps the generator as it was built.
\<close>

definition network_details :: "bool \<Rightarrow> network \<Rightarrow> result \<Rightarrow> network \<times> result" where
  "network_details old G res =
     (if old
      then (G\<lparr>img_resolution := 512\<rparr>,
            res\<lparr>r_img_resolution := Some 512, r_num_ws := Some 16,
                r_has_input_transform := Some False\<rparr>)
      else (G, res\<lparr>r_img_resolution := Some (img_resolution G), r_num_ws := Some (num_ws G),
                    r_has_noise := Some (has_noise_const G),
                    r_has_input_transform := Some (transform G \<noteq> None)\<rparr>))"

text \<open>
  "Set input transform": only \<^verbatim>\<open>LinAlgError\<close> is caught; it goes to \<^verbatim>\<open>res.error\<close> and
  the identity is copied into the network.
\<close>

definition set_input_transform ::
  "env \<Rightarrow> mat3 option \<Rightarrow> network \<Rightarrow> result \<Rightarrow> network \<times> result" where
  "set_input_transform env input_transform G res =
     (if r_has_input_transform res = Some True
      then (case input_transform of
              None \<Rightarrow> (G\<lparr>transform := Some eye3\<rparr>, res)
            | Some t \<Rightarrow>
                (case linalg_inv env t of
                   None \<Rightarrow> (G\<lparr>transform := Some eye3\<rparr>, res\<lparr>r_error := Some LinAlgError\<rparr>)
                 | Some m \<Rightarrow> (G\<lparr>transform := Some m\<rparr>, res)))
      else (G, res))"

text \<open>"Run mapping network": \<open>w\<close> of shape \<open>(1, num_ws, D)\<close>.\<close>

definition run_mapping :: "env \<Rightarrow> bool \<Rightarrow> network \<Rightarrow> result \<Rightarrow> args \<Rightarrow> exn + vec list" where
  "run_mapping env old G res a =
     (let seed = (case a_w0_seed a of None \<Rightarrow> 0 | Some n \<Rightarrow> n)
      in if old
         then (case style_forward env G seed of
                 Inl e \<Rightarrow> Inl e
               | Inr v \<Rightarrow> Inr (replicate (case r_num_ws res of None \<Rightarrow> 0 | Some n \<Rightarrow> n) v))
         else mapping env G seed (a_trunc_psi a) (a_trunc_cutoff a))"

text \<open>
  The assignments after the mapping network, in the order of the source;
  \<^verbatim>\<open>w[:, 0, :]\<close> raises on a latent without layers and \<^verbatim>\<open>torch.optim.Adam\<close> on a
  negative learning rate.
\<close>

definition set_latents :: "session \<Rightarrow> vec list \<Rightarrow> args \<Rightarrow> exn option \<times> session" where
  "set_latents s w a =
     (let w_plus = (case a_w_plus a of None \<Rightarrow> True | Some b \<Rightarrow> b);
          s1 = s\<lparr>self_w0 := Some w, self_w_plus := Some w_plus\<rparr>
      in case (if w_plus then Inr (W3 w)
               else (case w of [] \<Rightarrow> Inl IndexError | v # vs \<Rightarrow> Inr (W2 v))) of
           Inl e \<Rightarrow> (Some e, s1)
         | Inr lat \<Rightarrow>
             (let s2 = s1\<lparr>self_w := Some lat, self_w_grad := None\<rparr>
              in if a_lr a < 0 then (Some ValueError, s2)
                 else (None, s2\<lparr>self_w_optim := Some \<lparr>lr = a_lr a, moments = []\<rparr>,
                                 self_feat_refs := Some None,
                                 self_points0_pt := Some None\<rparr>)))"

definition init_network ::
  "env \<Rightarrow> session \<Rightarrow> result \<Rightarrow> args \<Rightarrow> exn option \<times> session \<times> result" where
  "init_network env s res a =
     (case get_network env (s\<lparr>self_pkl := Some (a_pkl a)\<rparr>) (a_pkl a) ''G_ema'' of
        (Inl e, s1) \<Rightarrow> (Some e, s1, res)
      | (Inr G0, s1) \<Rightarrow>
          (case network_details (self_is_old s1) G0 res of
             (G1, res1) \<Rightarrow>
               (case set_input_transform env (a_input_transform a) G1 res1 of
                  (G, res2) \<Rightarrow>
                    (let s2 = s1\<lparr>self_G := Some G,
                                  self_w0_seed := Some (case a_w0_seed a of
                                                          None \<Rightarrow> 0 | Some n \<Rightarrow> n)\<rparr>
                     in case run_mapping env (self_is_old s1) G res2 a of
                          Inl e \<Rightarrow> (Some e, s2, res2)
                        | Inr w \<Rightarrow>
                            (case set_latents s2 w a of
                               (e, s3) \<Rightarrow> (e, s3, res2))))))"

subsection \<open>\<^verbatim>\<open>_render_drag_impl\<close>\<close>

text \<open>
  The latent given to the synthesis network: \<^verbatim>\<open>ws.unsqueeze(1).repeat(1,6,1)\<close> on a
  two-dimensional \<^verbatim>\<open>self.w\<close>, then \<^verbatim>\<open>torch.cat([ws[:,:6,:], self.w0[:,6:,:]], dim=1)\<close>.
\<close>

definition effective_ws :: "latent \<Rightarrow> vec list \<Rightarrow> vec list" where
  "effective_ws w w0 =
     (let ws = (case w of W2 v \<Rightarrow> replicate 6 v | W3 layers \<Rightarrow> layers)
      in take 6 ws @ drop 6 w0)"

text \<open>
  The reset block: a change in the number of points sets \<^verbatim>\<open>reset\<close>, a reset clears
  \<^verbatim>\<open>feat_refs\<close> and \<^verbatim>\<open>points0_pt\<close>, and \<^verbatim>\<open>self.points\<close> is bound to the list given.
  \<open>self_points\<close> holds the value of that list at the end of the call; a caller that keeps
  the list object and changes it between two calls is not modelled.
\<close>

definition reset_requested :: "session \<Rightarrow> args \<Rightarrow> bool" where
  "reset_requested s a =
     (case self_points s of
        None \<Rightarrow> a_reset a
      | Some old_points \<Rightarrow>
          (if length (a_points a) \<noteq> length old_points then True else a_reset a))"

definition apply_reset :: "session \<Rightarrow> args \<Rightarrow> session" where
  "apply_reset s a =
     (let s1 = (if reset_requested s a
                then s\<lparr>self_feat_refs := Some None, self_points0_pt := Some None\<rparr>
                else s)
      in s1\<lparr>self_points := Some (a_points a)\<rparr>)"

text \<open>An index into a Python list or a tensor dimension of size \<open>n\<close>.\<close>

definition py_index :: "int \<Rightarrow> int \<Rightarrow> exn + int" where
  "py_index n i = (if i < - n \<or> n \<le> i then Inl IndexError else Inr (if i < 0 then i + n else i))"

definition py_nth :: "'a list \<Rightarrow> int \<Rightarrow> exn + 'a" where
  "py_nth xs i =
     (case py_index (int (length xs)) i of Inl e \<Rightarrow> Inl e | Inr k \<Rightarrow> Inr (xs ! nat k))"

text \<open>
  The reference vectors: \<^verbatim>\<open>self.feat_refs = []\<close>, then one
  \<^verbatim>\<open>self.feat0_resize[:,:,py,px]\<close> appended per point. An index out of range leaves
  the list built so far.
\<close>

fun sample_refs :: "featmap \<Rightarrow> int \<Rightarrow> int \<Rightarrow> point list \<Rightarrow> vec list \<Rightarrow> exn option \<times> vec list" where
  "sample_refs feat0 h w [] acc = (None, acc)"
| "sample_refs feat0 h w (point # rest) acc =
     (case py_index h (fst point) of
        Inl e \<Rightarrow> (Some e, acc)
      | Inr py \<Rightarrow>
          (case py_index w (snd point) of
             Inl e \<Rightarrow> (Some e, acc)
           | Inr px \<Rightarrow> sample_refs feat0 h w rest (acc @ [feat0 py px])))"

definition points_tensor :: "point list \<Rightarrow> tensor" where
  "points_tensor ps =
     Tensor [1, length ps, 2] (concat (map (\<lambda>p. [of_int (fst p), of_int (snd p)]) ps))"

definition init_feat_refs :: "session \<Rightarrow> featmap \<Rightarrow> int \<Rightarrow> int \<Rightarrow> point list \<Rightarrow> exn option \<times> session" where
  "init_feat_refs s feat0 h w points =
     (case sample_refs feat0 h w points [] of
        (Some e, refs) \<Rightarrow>
          (Some e, s\<lparr>self_feat0_resize := Some feat0, self_feat_refs := Some (Some refs)\<rparr>)
      | (None, refs) \<Rightarrow>
          (None, s\<lparr>self_feat0_resize := Some feat0, self_feat_refs := Some (Some refs),
                   self_points0_pt := Some (Some (points_tensor points))\<rparr>))"

text \<open>
  The loss after the motion terms: the mask term when the mask has minimum 0 and maximum
  1, and the latent regularisation.
\<close>

definition total_loss ::
  "env \<Rightarrow> session \<Rightarrow> args \<Rightarrow> featmap \<Rightarrow> vec list \<Rightarrow> vec list \<Rightarrow> real \<Rightarrow> exn + real" where
  "total_loss env s a feat_resize ws w0 loss_motion =
     (case (case a_mask a of
              None \<Rightarrow> Inr loss_motion
            | Some mask_t \<Rightarrow>
                (if entries mask_t = [] then Inl RuntimeError
                 else if Min (set (entries mask_t)) = 0 \<and> Max (set (entries mask_t)) = 1
                 then (case self_feat0_resize s of
                         None \<Rightarrow> Inl (AttributeError ''feat0_resize'')
                       | Some feat0 \<Rightarrow>
                           Inr (loss_motion + a_lambda_mask a * loss_fix env feat_resize feat0 mask_t))
                 else Inr loss_motion)) of
        Inl e \<Rightarrow> Inl e
      | Inr loss \<Rightarrow> Inr (loss + a_reg a * l1_latent env ws w0))"

text \<open>
  The optimizer update, under \<^verbatim>\<open>if not res.stop\<close>: \<^verbatim>\<open>zero_grad\<close>, \<^verbatim>\<open>backward\<close> and
  \<^verbatim>\<open>step\<close> change \<^verbatim>\<open>self.w\<close>, its gradient and the state of \<^verbatim>\<open>self.w_optim\<close>.
\<close>

definition optimize ::
  "env \<Rightarrow> session \<Rightarrow> args \<Rightarrow> point list \<Rightarrow> latent \<Rightarrow> bool \<Rightarrow> real
     \<Rightarrow> exn option \<times> session" where
  "optimize env s a points w stop loss =
     (if \<not> stop
      then (case self_w_optim s of
              None \<Rightarrow> (Some (AttributeError ''w_optim''), s)
            | Some opt \<Rightarrow>
                (case optim_step env s a points w opt loss of
                   Inl e \<Rightarrow> (Some e, s)
                 | Inr (w', g', opt') \<Rightarrow>
                     (None, s\<lparr>self_w := Some w', self_w_grad := g',
                              self_w_optim := Some opt'\<rparr>)))
      else (None, s))"

text \<open>
  The branch \<^verbatim>\<open>if is_drag\<close>, in three parts. First the resized feature map and, when
  \<^verbatim>\<open>self.feat_refs is None\<close>, the reference vectors.
\<close>

definition drag_features ::
  "env \<Rightarrow> session \<Rightarrow> args \<Rightarrow> network \<Rightarrow> featmap list \<Rightarrow> exn option \<times> session \<times> featmap" where
  "drag_features env s a G feat =
     (let h = img_resolution G; w = img_resolution G
      in case py_nth feat (a_feature_idx a) of
           Inl e \<Rightarrow> (Some e, s, (\<lambda>y x. []))
         | Inr f \<Rightarrow>
             (let feat_resize = interpolate env f h w
              in case self_feat_refs s of
                   None \<Rightarrow> (Some (AttributeError ''feat_refs''), s, feat_resize)
                 | Some (Some refs) \<Rightarrow> (None, s, feat_resize)
                 | Some None \<Rightarrow>
                     (case init_feat_refs s feat_resize h w (a_points a) of
                        (e, s1) \<Rightarrow> (e, s1, feat_resize))))"

text \<open>
  Then the point tracking, which overwrites the entries of \<^verbatim>\<open>points\<close>, the list that
  \<^verbatim>\<open>self.points\<close> is bound to, and \<^verbatim>\<open>res.points\<close>.
\<close>

definition drag_tracking ::
  "session \<Rightarrow> result \<Rightarrow> args \<Rightarrow> network \<Rightarrow> featmap \<Rightarrow> exn option \<times> session \<times> result" where
  "drag_tracking s res a G feat_resize =
     (let h = img_resolution G; w = img_resolution G;
          refs = (case self_feat_refs s of Some (Some refs) \<Rightarrow> refs | _ \<Rightarrow> [])
      in case track_points feat_resize h w (search_radius (a_r2 a) h) refs 0 (a_points a) of
           (Some e, ps) \<Rightarrow> (Some e, s\<lparr>self_points := Some ps\<rparr>, res)
         | (None, ps) \<Rightarrow> (None, s\<lparr>self_points := Some ps\<rparr>, res\<lparr>r_points := Some ps\<rparr>))"

text \<open>Then the motion supervision, the loss and the optimizer update.\<close>

definition drag_supervision ::
  "env \<Rightarrow> session \<Rightarrow> result \<Rightarrow> args \<Rightarrow> network \<Rightarrow> latent \<Rightarrow> vec list \<Rightarrow> vec list \<Rightarrow> featmap
     \<Rightarrow> point list \<Rightarrow> exn option \<times> session \<times> result" where
  "drag_supervision env s res a G w ws w0 feat_resize points =
     (let h = img_resolution G
      in case motion_supervision (motion_term env feat_resize h (a_r1 a)) h (a_targets a) points of
           (Some e, stop, loss_motion) \<Rightarrow> (Some e, s, res\<lparr>r_stop := Some stop\<rparr>)
         | (None, stop, loss_motion) \<Rightarrow>
             (case total_loss env s a feat_resize ws w0 loss_motion of
                Inl e \<Rightarrow> (Some e, s, res\<lparr>r_stop := Some stop\<rparr>)
              | Inr loss \<Rightarrow>
                  (case optimize env s a points w stop loss of
                     (e, s1) \<Rightarrow> (e, s1, res\<lparr>r_stop := Some stop\<rparr>))))"

definition drag_branch ::
  "env \<Rightarrow> session \<Rightarrow> result \<Rightarrow> args \<Rightarrow> network \<Rightarrow> latent \<Rightarrow> vec list \<Rightarrow> vec list
     \<Rightarrow> featmap list \<Rightarrow> exn option \<times> session \<times> result" where
  "drag_branch env s res a G w ws w0 feat =
     (case drag_features env s a G feat of
        (Some e, s1, feat_resize) \<Rightarrow> (Some e, s1, res)
      | (None, s1, feat_resize) \<Rightarrow>
          (case drag_tracking s1 res a G feat_resize of
             (Some e, s2, res2) \<Rightarrow> (Some e, s2, res2)
           | (None, s2, res2) \<Rightarrow>
               drag_supervision env s2 res2 a G w ws w0 feat_resize
                 (case r_points res2 of None \<Rightarrow> [] | Some ps \<Rightarrow> ps)))"

text \<open>
  The body of the method. The attributes \<^verbatim>\<open>G\<close>, \<^verbatim>\<open>w\<close> and \<^verbatim>\<open>w0\<close> are read first, each an
  \<^verbatim>\<open>AttributeError\<close> when missing; then the reset block, the synthesis network, the drag
  branch when \<^verbatim>\<open>is_drag\<close>, and the image.
\<close>

definition render_drag_impl ::
  "env \<Rightarrow> session \<Rightarrow> result \<Rightarrow> args \<Rightarrow> exn option \<times> session \<times> result" where
  "render_drag_impl env s res a =
     (case self_G s of
        None \<Rightarrow> (Some (AttributeError ''G''), s, res)
      | Some G \<Rightarrow>
     (case self_w s of
        None \<Rightarrow> (Some (AttributeError ''w''), s, res)
      | Some w \<Rightarrow>
     (case self_w0 s of
        None \<Rightarrow> (Some (AttributeError ''w0''), s, res)
      | Some w0 \<Rightarrow>
     (let ws = effective_ws w w0;
          s1 = apply_reset s a
      in case synthesis env (self_is_old s1) G (self_mean_latent s1) ws
                (a_trunc_psi a) (a_noise_mode a) of
           Inl e \<Rightarrow> (Some e, s1, res)
         | Inr (img, feat) \<Rightarrow>
             (case (if a_is_drag a then drag_branch env s1 res a G w ws w0 feat
                    else (None, s1, res)) of
                (Some e, s2, res2) \<Rightarrow> (Some e, s2, res2)
              | (None, s2, res2) \<Rightarrow>
                  (None, s2,
                   res2\<lparr>r_image := Some (postprocess env img (a_img_normalize a)
                                           (a_img_scale_db a) (a_to_pil a))\<rparr>))))))"

subsection \<open>\<^verbatim>\<open>render\<close>\<close>

text \<open>
  One comparison \<^verbatim>\<open>if hasattr(self, k): if self.k != args[k]\<close>: no attribute, no
  comparison; \<^verbatim>\<open>args[k]\<close> raises \<^verbatim>\<open>KeyError\<close> when the key is missing.
\<close>

definition attr_differs :: "'a option \<Rightarrow> 'a option \<Rightarrow> string \<Rightarrow> exn + bool" where
  "attr_differs attr arg key =
     (case attr of
        None \<Rightarrow> Inr False
      | Some v \<Rightarrow> (case arg of None \<Rightarrow> Inl (KeyError key) | Some x \<Rightarrow> Inr (v \<noteq> x)))"

definition init_decision :: "session \<Rightarrow> args \<Rightarrow> exn + bool" where
  "init_decision s a =
     (case attr_differs (self_pkl s) (map_option Some (a_pkl a)) ''pkl'' of
        Inl e \<Rightarrow> Inl e
      | Inr d_pkl \<Rightarrow>
     (case attr_differs (self_w0_seed s) (a_w0_seed a) ''w0_seed'' of
        Inl e \<Rightarrow> Inl e
      | Inr d_seed \<Rightarrow>
     (case attr_differs (self_w_plus s) (a_w_plus a) ''w_plus'' of
        Inl e \<Rightarrow> Inl e
      | Inr d_plus \<Rightarrow>
     (case a_reset_w a of
        None \<Rightarrow> Inl (KeyError ''reset_w'')
      | Some reset_w \<Rightarrow> Inr (self_G s = None \<or> d_pkl \<or> d_seed \<or> d_plus \<or> reset_w)))))"

text \<open>
  The method as \<^verbatim>\<open>render\<close> calls it, under its decorator \<^verbatim>\<open>iex\<close>: an exception of the
  body is caught by the decorator, which opens the debugger on it and then returns, so
  the exception does not reach the caller; the session and \<^verbatim>\<open>res\<close> stay as the body
  left them.
\<close>

definition render_drag_iex :: "env \<Rightarrow> session \<Rightarrow> result \<Rightarrow> args \<Rightarrow> session \<times> result" where
  "render_drag_iex env s res a =
     (case render_drag_impl env s res a of (e, s', res') \<Rightarrow> (s', res'))"

text \<open>
  The lines after the \<^verbatim>\<open>try\<close> block: \<^verbatim>\<open>self.to_cpu(res.image)\<close> reads the shape of the
  image, which a PIL image (the image when \<^verbatim>\<open>to_pil\<close> is true) does not have; the
  \<^verbatim>\<open>AttributeError\<close> leaves \<^verbatim>\<open>render\<close>. A tensor is copied to an array with the same
  entries, and \<^verbatim>\<open>res.error\<close> becomes its own text. The keys \<^verbatim>\<open>image_pts\<close> and
  \<^verbatim>\<open>stats\<close> are never set.
\<close>

definition result_to_cpu :: "args \<Rightarrow> result \<Rightarrow> exn + result" where
  "result_to_cpu a res =
     (case r_image res of
        None \<Rightarrow> Inr res
      | Some img \<Rightarrow> (if a_to_pil a then Inl (AttributeError ''shape'') else Inr res))"

text \<open>
  \<^verbatim>\<open>render\<close>: the \<^verbatim>\<open>try\<close> block and its \<^verbatim>\<open>except\<close>, which puts the exception into
  \<^verbatim>\<open>res.error\<close> and keeps the session as the failed call left it, then the lines after
  it. The second component says whether \<^verbatim>\<open>init_network\<close> was called, the third is the
  result returned or the exception raised.
\<close>

definition render :: "env \<Rightarrow> session \<Rightarrow> args \<Rightarrow> session \<times> bool \<times> (exn + result)" where
  "render env s a =
     (case init_decision s a of
        Inl e \<Rightarrow> (s, False, result_to_cpu a (empty_result\<lparr>r_error := Some e\<rparr>))
      | Inr init_net \<Rightarrow>
          (case (if init_net
                 then init_network env s (empty_result\<lparr>r_init_net := Some init_net\<rparr>) a
                 else (None, s, empty_result\<lparr>r_init_net := Some init_net\<rparr>)) of
             (Some e, s1, res1) \<Rightarrow> (s1, init_net, result_to_cpu a (res1\<lparr>r_error := Some e\<rparr>))
           | (None, s1, res1) \<Rightarrow>
               (case render_drag_iex env s1 res1 a of
                  (s2, res2) \<Rightarrow> (s2, init_net, result_to_cpu a res2))))"

subsection \<open>Predicates of the statements\<close>

text \<open>
  A point inside the \<open>h \<times> w\<close> image; the square window of half-width \<open>r\<close> around a
  centre, clipped to the image; and the row-major scan order of locations.
\<close>

definition in_image :: "int \<Rightarrow> int \<Rightarrow> point \<Rightarrow> bool" where
  "in_image h w p \<longleftrightarrow> 0 \<le> fst p \<and> fst p < h \<and> 0 \<le> snd p \<and> snd p < w"

definition window :: "int \<Rightarrow> int \<Rightarrow> int \<Rightarrow> point \<Rightarrow> point \<Rightarrow> bool" where
  "window h w r c p \<longleftrightarrow>
     \<bar>fst p - fst c\<bar> \<le> r \<and> \<bar>snd p - snd c\<bar> \<le> r \<and> in_image h w p"

definition scans_before :: "point \<Rightarrow> point \<Rightarrow> bool" where
  "scans_before p q \<longleftrightarrow> fst p < fst q \<or> (fst p = fst q \<and> snd p < snd q)"

definition dist_to_target :: "point \<Rightarrow> point \<Rightarrow> real" where
  "dist_to_target point target =
     sqrt ((of_int (fst point - fst target))\<^sup>2 + (of_int (snd point - snd target))\<^sup>2)"

text \<open>
  The layers of the optimized latent in per-layer form, and the shape invariant of a
  session: a three-dimensional \<^verbatim>\<open>self.w\<close> has as many layers as \<^verbatim>\<open>self.w0\<close>.
\<close>

definition optimized_layers :: "latent \<Rightarrow> vec list" where
  "optimized_layers w = (case w of W2 v \<Rightarrow> replicate 6 v | W3 layers \<Rightarrow> layers)"

definition latent_matches :: "latent \<Rightarrow> vec list \<Rightarrow> bool" where
  "latent_matches w w0 = (case w of W2 v \<Rightarrow> True | W3 layers \<Rightarrow> length layers = length w0)"

text \<open>
  The location \<open>p\<close> is in the window around \<open>c\<close>, no location of the window is nearer to
  the reference vector, and every location of the window scanned before \<open>p\<close> is farther.
\<close>

definition nearest_first :: "featmap \<Rightarrow> int \<Rightarrow> int \<Rightarrow> int \<Rightarrow> vec \<Rightarrow> point \<Rightarrow> point \<Rightarrow> bool" where
  "nearest_first feat_resize h w r ref c p \<longleftrightarrow>
     window h w r c p \<and>
     (\<forall>q. window h w r c q \<longrightarrow>
          l2dist (feat_resize (fst p) (snd p)) ref \<le> l2dist (feat_resize (fst q) (snd q)) ref) \<and>
     (\<forall>q. window h w r c q \<and> scans_before q p \<longrightarrow>
          l2dist (feat_resize (fst p) (snd p)) ref < l2dist (feat_resize (fst q) (snd q)) ref)"

text \<open>The determinant of a 3 by 3 matrix: the matrix is singular when it is 0.\<close>

definition det3 :: "mat3 \<Rightarrow> real" where
  "det3 m = (case m of ((a, b, c), (d, e, f), (g, h, i)) \<Rightarrow>
     a * (e * i - f * h) - b * (d * i - f * g) + c * (d * h - e * g))"

subsection \<open>The renderer after \<^verbatim>\<open>__init__\<close>, and a small instance\<close>

text \<open>\<^verbatim>\<open>Renderer.__init__\<close>: empty caches and no other attribute.\<close>

definition new_renderer :: session where
  "new_renderer = \<lparr>self_pkl_data = Map.empty, self_networks = Map.empty, self_is_old = False,
     self_mean_latent = None, self_G = None, self_pkl = None, self_w0_seed = None,
     self_w_plus = None, self_w0 = None, self_w = None, self_w_grad = None,
     self_w_optim = None, self_feat_refs = None, self_points0_pt = None,
     self_feat0_resize = None, self_points = None\<rparr>"

text \<open>
  An instance on which the definitions are run: two generators of resolution 128 with 8
  latent layers (the second with an input transform), a one-channel feature map whose
  value grows with the distance from the location (7, 10), and an optimizer step that
  moves the latent. At resolution 128 the search radius is 3 and the stop threshold 2.
\<close>

definition example_net :: network where
  "example_net = \<lparr>img_resolution = 128, num_ws = 8, c_dim = 0, has_noise_const = True,
     transform = None, weights = Tensor [] []\<rparr>"

definition example_feat :: featmap where
  "example_feat y x = [of_int (\<bar>y - 7\<bar> + \<bar>x - 10\<bar>)]"

definition example_step :: "latent \<Rightarrow> latent" where
  "example_step w = (case w of W2 v \<Rightarrow> W2 (map (\<lambda>x. x + 1) v)
                     | W3 layers \<Rightarrow> W3 (map (map (\<lambda>x. x + 1)) layers))"

text \<open>
  A singular matrix, its second row twice the first, on which the factorization of
  \<^verbatim>\<open>np.linalg.inv\<close> meets a zero pivot. The inversion of the instance raises on it
  and is the exact inverse (adjugate over determinant) on the other matrices.
\<close>

definition example_singular :: mat3 where
  "example_singular = ((1, 2, 3), (2, 4, 6), (0, 0, 1))"

definition example_inv :: "mat3 \<Rightarrow> mat3 option" where
  "example_inv m =
     (if m = example_singular then None
      else (case m of ((a, b, c), (d, e, f), (g, h, i)) \<Rightarrow>
        Some (((e * i - f * h) / det3 m, (c * h - b * i) / det3 m, (b * f - c * e) / det3 m),
              ((f * g - d * i) / det3 m, (a * i - c * g) / det3 m, (c * d - a * f) / det3 m),
              ((d * h - e * g) / det3 m, (b * g - a * h) / det3 m, (a * e - b * d) / det3 m))))"

definition example_env :: env where
  "example_env = \<lparr>
     load_pkl = (\<lambda>old pkl.
        if pkl = ''stylegan2-ex'' then Inr [''G_ema'' \<mapsto> example_net]
        else if pkl = ''stylegan3-ex''
        then Inr [''G_ema'' \<mapsto> example_net\<lparr>transform := Some ((2, 0, 0), (0, 2, 0), (0, 0, 2))\<rparr>]
        else Inl (External ''cannot open'')),
     build_net = (\<lambda>pkl net. Inr net),
     mean_latent_of = (\<lambda>net. Inr (Tensor [] [])),
     linalg_inv = example_inv,
     mapping = (\<lambda>G seed psi cutoff. Inr (replicate (num_ws G) [of_int seed])),
     style_forward = (\<lambda>G seed. Inr [of_int seed]),
     synthesis = (\<lambda>old G ml ws psi noise. Inr (Tensor [3, 1, 1] [0, 0, 0],
        [example_feat, example_feat, example_feat, example_feat, example_feat, example_feat])),
     interpolate = (\<lambda>f h w. f),
     motion_term = (\<lambda>f h r1 p d. 1),
     loss_fix = (\<lambda>f f0 m. 0),
     l1_latent = (\<lambda>ws w0. 0),
     optim_step = (\<lambda>s a ps w opt loss.
        Inr (example_step w, Some w, opt\<lparr>moments := [Tensor [1] [loss]]\<rparr>)),
     postprocess = (\<lambda>img normalize db pil. img)\<rparr>"

text \<open>The defaults of the source, one point at (7, 10) and its target at (9, 10).\<close>

definition example_args :: args where
  "example_args = \<lparr>a_pkl = Some ''stylegan2-ex'', a_w0_seed = Some 0, a_w_plus = Some True,
     a_reset_w = Some False, a_input_transform = None, a_lr = 0.001, a_trunc_psi = 0.7,
     a_trunc_cutoff = None, a_noise_mode = ''const'', a_points = [(7, 10)],
     a_targets = [(9, 10)], a_mask = None, a_lambda_mask = 10, a_reg = 0, a_feature_idx = 5,
     a_r1 = 3, a_r2 = 12, a_img_scale_db = 0, a_img_normalize = False, a_to_pil = True,
     a_is_drag = True, a_reset = False\<rparr>"

text \<open>The session that \<^verbatim>\<open>init_network\<close> makes of the new renderer on these arguments.\<close>

definition example_ready :: session where
  "example_ready = \<lparr>
     self_pkl_data = [''stylegan2-ex'' \<mapsto> Inr [''G_ema'' \<mapsto> example_net]],
     self_networks = [(''stylegan2-ex'', ''G_ema'') \<mapsto> Inr example_net],
     self_is_old = False, self_mean_latent = None, self_G = Some example_net,
     self_pkl = Some (Some ''stylegan2-ex''), self_w0_seed = Some 0, self_w_plus = Some True,
     self_w0 = Some (replicate 8 [0]), self_w = Some (W3 (replicate 8 [0])),
     self_w_grad = None, self_w_optim = Some \<lparr>lr = 0.001, moments = []\<rparr>,
     self_feat_refs = Some None, self_points0_pt = Some None,
     self_feat0_resize = None, self_points = None\<rparr>"

text \<open>The session after one drag step on these arguments.\<close>

definition example_after :: session where
  "example_after = example_ready\<lparr>self_feat_refs := Some (Some [[0]]),
     self_points0_pt := Some (Some (Tensor [1, 1, 2] [7, 10])),
     self_feat0_resize := Some example_feat, self_points := Some [(7, 10)]\<rparr>"





text \<open>
  The session after a call without dragging on the point (7, 10), which is the session
  \<^verbatim>\<open>init_network\<close> made with \<^verbatim>\<open>self.points\<close> bound.
\<close>

definition example_rendered :: session where
  "example_rendered = example_ready\<lparr>self_points := Some [(7, 10)]\<rparr>"

text \<open>
  A session in the single-vector parameterization (\<^verbatim>\<open>w_plus\<close> false) whose latent the
  optimizer has moved to the vector (5).
\<close>

definition example_single :: session where
  "example_single = example_ready\<lparr>self_w_plus := Some False, self_w := Some (W2 [5])\<rparr>"

section \<open>The point tracker\<close>

lemma argmin_from_spec:
  assumes "b < i" "i + length xs = length ys" "xs = drop i ys" "m = ys ! b"
    "\<forall>k<i. m \<le> ys ! k" "\<forall>k<b. m < ys ! k"
  shows "argmin_from xs i b m < length ys \<and>
         (\<forall>k<length ys. ys ! argmin_from xs i b m \<le> ys ! k) \<and>
         (\<forall>k<argmin_from xs i b m. ys ! argmin_from xs i b m < ys ! k)"
  using assms
proof (induction xs arbitrary: i b m)
  case Nil
  then show ?case by auto
next
  case (Cons x xs)
  have i: "i < length ys" using Cons.prems(2) by simp
  have x: "x = ys ! i" using Cons.prems(3) i by (metis nth_via_drop)
  have xs: "xs = drop (Suc i) ys" using Cons.prems(3) by (metis drop_Suc tl_drop list.sel(3))
  have len: "Suc i + length xs = length ys" using Cons.prems(2) by simp
  show ?case
  proof (cases "x < m")
    case True
    have "\<forall>k<Suc i. x \<le> ys ! k" using Cons.prems(5) True x by (auto simp: less_Suc_eq)
    moreover have "\<forall>k<i. x < ys ! k" using Cons.prems(5) True by fastforce
    ultimately show ?thesis
      using Cons.IH [of i "Suc i" x] True xs len x by simp
  next
    case False
    have "\<forall>k<Suc i. m \<le> ys ! k" using Cons.prems(5) False x by (auto simp: less_Suc_eq)
    then show ?thesis
      using Cons.IH [of b "Suc i" m] False xs len Cons.prems(1,4,6) by simp
  qed
qed

lemma argmin_first_spec:
  assumes "xs \<noteq> []"
  shows "argmin_first xs < length xs \<and>
         (\<forall>k<length xs. xs ! argmin_first xs \<le> xs ! k) \<and>
         (\<forall>k<argmin_first xs. xs ! argmin_first xs < xs ! k)"
proof -
  obtain x ys where xs: "xs = x # ys" using assms by (cases xs) auto
  have "argmin_from ys 1 0 x < length xs \<and>
         (\<forall>k<length xs. xs ! argmin_from ys 1 0 x \<le> xs ! k) \<and>
         (\<forall>k<argmin_from ys 1 0 x. xs ! argmin_from ys 1 0 x < xs ! k)"
    by (rule argmin_from_spec) (auto simp: xs)
  then show ?thesis by (simp add: argmin_first_def xs)
qed

lemma length_grid:
  "length (concat (map (\<lambda>y. map (f y) cs) rs)) = length rs * length cs"
  by (induction rs) auto

lemma nth_grid:
  assumes "i < length rs * length cs"
  shows "concat (map (\<lambda>y. map (f y) cs) rs) ! i = f (rs ! (i div length cs)) (cs ! (i mod length cs))"
  using assms
proof (induction rs arbitrary: i)
  case Nil
  then show ?case by simp
next
  case (Cons r rs)
  have pos: "0 < length cs" using Cons.prems by (cases cs) auto
  show ?case
  proof (cases "i < length cs")
    case True
    then show ?thesis by (simp add: nth_append)
  next
    case False
    then have ge: "length cs \<le> i" by simp
    have lt: "i - length cs < length rs * length cs" using Cons.prems ge by simp
    have d: "i div length cs = Suc ((i - length cs) div length cs)"
      using ge pos by (simp add: le_div_geq)
    have m: "i mod length cs = (i - length cs) mod length cs"
      using ge by (simp add: le_mod_geq)
    show ?thesis using False Cons.IH [OF lt] d m by (simp add: nth_append)
  qed
qed


lemma window_bounds:
  "window h w r c p \<longleftrightarrow>
     max (fst c - r) 0 \<le> fst p \<and> fst p < min (fst c + r + 1) h \<and>
     max (snd c - r) 0 \<le> snd p \<and> snd p < min (snd c + r + 1) w"
  by (auto simp: window_def in_image_def)

lemma slice_range_id:
  "0 \<le> a \<Longrightarrow> b \<le> n \<Longrightarrow> a < b \<Longrightarrow> slice_range n a b = [a .. b - 1]"
  by (simp add: slice_range_def slice_bound_def)

lemma track_point_spec:
  assumes inb: "in_image h w point" and r: "0 \<le> r"
  shows "\<exists>p. track_point feat_resize h w r ref point = Inr p \<and>
           window h w r point p \<and>
           (\<forall>q. window h w r point q \<longrightarrow>
                l2dist (feat_resize (fst p) (snd p)) ref \<le> l2dist (feat_resize (fst q) (snd q)) ref) \<and>
           (\<forall>q. window h w r point q \<and> scans_before q p \<longrightarrow>
                l2dist (feat_resize (fst p) (snd p)) ref < l2dist (feat_resize (fst q) (snd q)) ref)"
proof -
  define up where "up = max (fst point - r) 0"
  define down where "down = min (fst point + r + 1) h"
  define left where "left = max (snd point - r) 0"
  define right where "right = min (snd point + r + 1) w"
  define rows where "rows = [up .. down - 1]"
  define cols where "cols = [left .. right - 1]"
  define D where "D = (\<lambda>y x. l2dist (feat_resize y x) ref)"
  define L2 where "L2 = concat (map (\<lambda>y. map (D y) cols) rows)"
  define idx where "idx = argmin_first L2"
  define width where "width = right - left"
  have ud: "0 \<le> up" "up < down" "down \<le> h" and lr: "0 \<le> left" "left < right" "right \<le> w"
    using inb r by (auto simp: in_image_def up_def down_def left_def right_def)
  have rows: "slice_range h up down = rows" and cols: "slice_range w left right = cols"
    using ud lr by (simp_all add: slice_range_id rows_def cols_def)
  have lrows: "length rows = nat (down - up)" and lcols: "length cols = nat width"
    by (simp_all add: rows_def cols_def width_def)
  have wpos: "0 < width" using lr by (simp add: width_def)
  have L2eq: "patch_dists feat_resize ref rows cols = L2"
    by (simp add: patch_dists_def L2_def D_def)
  have lenL2: "length L2 = nat (down - up) * nat width"
    by (simp add: L2_def length_grid lrows lcols)
  have ne: "L2 \<noteq> []" using lenL2 ud wpos by auto
  have nthL2: "L2 ! k = D (up + int (k div nat width)) (left + int (k mod nat width))"
    if "k < length L2" for k
  proof -
    have a: "k div nat width < nat (down - up)"
      using that lenL2 wpos by (simp add: less_mult_imp_div_less)
    have b: "k mod nat width < nat width" using wpos by simp
    have "L2 ! k = D (rows ! (k div length cols)) (cols ! (k mod length cols))"
      unfolding L2_def by (rule nth_grid) (use that lenL2 lrows lcols in simp)
    also have "rows ! (k div length cols) = up + int (k div nat width)"
      using a by (simp add: lcols rows_def)
    also have "cols ! (k mod length cols) = left + int (k mod nat width)"
      using b by (simp add: lcols cols_def width_def)
    finally show ?thesis .
  qed
  define p where "p = (int idx div width + up, int idx mod width + left)"
  have am: "idx < length L2" "\<forall>k<length L2. L2 ! idx \<le> L2 ! k" "\<forall>k<idx. L2 ! idx < L2 ! k"
    using argmin_first_spec [OF ne] by (simp_all add: idx_def)
  have run: "track_point feat_resize h w r ref point = Inr p"
    using ne
    by (simp add: track_point_def Let_def up_def [symmetric] down_def [symmetric]
        left_def [symmetric] right_def [symmetric] rows cols L2eq idx_def p_def width_def)
  have idiv: "int idx div width = int (idx div nat width)"
    using wpos by (simp add: zdiv_int)
  have imod: "int idx mod width = int (idx mod nat width)"
    using wpos by (simp add: zmod_int)
  have dlt: "idx div nat width < nat (down - up)"
    using am(1) lenL2 wpos by (simp add: less_mult_imp_div_less)
  have pw: "window h w r point p"
    unfolding window_bounds p_def up_def [symmetric] down_def [symmetric]
      left_def [symmetric] right_def [symmetric]
  proof -
    have "idx mod nat width < nat width" using wpos by simp
    then have "int (idx mod nat width) < width" using wpos by linarith
    then have "int (idx mod nat width) < right - left" unfolding width_def .
    moreover have "int (idx div nat width) < down - up" using dlt by linarith
    ultimately show "up \<le> fst (int idx div width + up, int idx mod width + left) \<and>
      fst (int idx div width + up, int idx mod width + left) < down \<and>
      left \<le> snd (int idx div width + up, int idx mod width + left) \<and>
      snd (int idx div width + up, int idx mod width + left) < right"
      unfolding idiv imod by simp
  qed
  have Dp: "D (fst p) (snd p) = L2 ! idx"
    using nthL2 [OF am(1)] by (simp add: p_def idiv imod add.commute)
  have key: "\<exists>k<length L2. L2 ! k = D (fst q) (snd q) \<and> (scans_before q p \<longrightarrow> k < idx)"
    if q: "window h w r point q" for q
  proof -
    from q have qb: "up \<le> fst q" "fst q < down" "left \<le> snd q" "snd q < right"
      by (simp_all add: window_bounds up_def down_def left_def right_def)
    define a where "a = nat (fst q - up)"
    define b where "b = nat (snd q - left)"
    define k where "k = a * nat width + b"
    have a: "a < nat (down - up)" and b: "b < nat width"
      using qb by (auto simp: a_def b_def width_def)
    have "k < a * nat width + nat width" using b by (simp add: k_def)
    also have "\<dots> = Suc a * nat width" by simp
    also have "\<dots> \<le> nat (down - up) * nat width"
      using a by (intro mult_le_mono1) simp
    finally have klt: "k < length L2" by (simp add: lenL2)
    have kd: "k div nat width = a" and km: "k mod nat width = b"
      using b by (simp_all add: k_def)
    have val: "L2 ! k = D (fst q) (snd q)"
      using nthL2 [OF klt] qb by (simp add: kd km a_def b_def)
    have ord: "k < idx" if sb: "scans_before q p"
    proof -
      have pa: "fst p = up + int (idx div nat width)" and pb: "snd p = left + int (idx mod nat width)"
        by (simp_all add: p_def idiv imod)
      have idx: "(idx div nat width) * nat width + idx mod nat width = idx" by simp
      from sb consider "a < idx div nat width" | "a = idx div nat width" "b < idx mod nat width"
        using qb by (auto simp: scans_before_def pa pb a_def b_def)
      then show ?thesis
      proof cases
        case 1
        then have "Suc a * nat width \<le> (idx div nat width) * nat width"
          by (intro mult_le_mono1) simp
        then have "a * nat width + nat width \<le> (idx div nat width) * nat width"
          by simp
        then show ?thesis using b idx unfolding k_def by linarith
      next
        case 2
        have "a * nat width + b < a * nat width + idx mod nat width"
          using 2(2) by simp
        also have "\<dots> = idx" unfolding 2(1) by (rule idx)
        finally show ?thesis by (simp add: k_def)
      qed
    qed
    show ?thesis using klt val ord by blast
  qed
  have min: "D (fst p) (snd p) \<le> D (fst q) (snd q)" if "window h w r point q" for q
    using key [OF that] am(2) Dp by metis
  have first: "D (fst p) (snd p) < D (fst q) (snd q)"
    if "window h w r point q" "scans_before q p" for q
    using key [OF that(1)] that(2) am(3) Dp by metis
  show ?thesis using run pw min first unfolding D_def by blast
qed

lemma py_round_nonneg: "0 \<le> x \<Longrightarrow> 0 \<le> py_round x"
  by (auto simp: py_round_def Let_def)

lemma search_radius_nonneg: "0 \<le> r2 \<Longrightarrow> 0 \<le> h \<Longrightarrow> 0 \<le> search_radius r2 h"
  by (simp add: search_radius_def py_round_nonneg)

lemma track_points_spec:
  assumes "\<forall>p\<in>set points. in_image h w p" "j + length points \<le> length refs" "0 \<le> r"
  shows "\<exists>ps. track_points feat_resize h w r refs j points = (None, ps) \<and>
           length ps = length points \<and>
           (\<forall>k<length points. nearest_first feat_resize h w r (refs ! (j + k)) (points ! k) (ps ! k))"
  using assms
proof (induction points arbitrary: j)
  case Nil
  then show ?case by simp
next
  case (Cons c cs)
  have c: "in_image h w c" and j: "\<not> length refs \<le> j" using Cons.prems by auto
  obtain p where p: "track_point feat_resize h w r (refs ! j) c = Inr p"
    and np: "nearest_first feat_resize h w r (refs ! j) c p"
    using track_point_spec [OF c Cons.prems(3), of feat_resize "refs ! j"]
    unfolding nearest_first_def by blast
  obtain ps where ps: "track_points feat_resize h w r refs (Suc j) cs = (None, ps)"
    "length ps = length cs"
    "\<forall>k<length cs. nearest_first feat_resize h w r (refs ! (Suc j + k)) (cs ! k) (ps ! k)"
    using Cons.IH [of "Suc j"] Cons.prems by auto
  have run: "track_points feat_resize h w r refs j (c # cs) = (None, p # ps)"
    using j p ps(1) by simp
  have "\<forall>k<length (c # cs).
          nearest_first feat_resize h w r (refs ! (j + k)) ((c # cs) ! k) ((p # ps) ! k)"
    using np ps(3) by (auto simp: less_Suc_eq_0_disj)
  then show ?case using run ps(2) by simp
qed

section \<open>The drag step\<close>

lemma motion_loop_None:
  "j + length points \<le> length targets \<Longrightarrow> fst (motion_loop mt h targets j points acc) = None"
  by (induction points arbitrary: j acc) (auto simp: Let_def)

lemma motion_loop_stop:
  "motion_loop mt h targets j points acc = (None, res) \<Longrightarrow>
   fst res \<longleftrightarrow> (fst acc \<and> (\<forall>k<length points. norm2 (direction (targets ! (j + k)) (points ! k)) \<le> stop_threshold h))"
proof (induction points arbitrary: j acc)
  case Nil
  then show ?case by auto
next
  case (Cons p ps)
  let ?d = "direction (targets ! j) p"
  let ?acc = "(if stop_threshold h < norm2 ?d then False else fst acc,
               if 1 < norm2 ?d then snd acc + mt p ?d else snd acc)"
  from Cons.prems have run: "motion_loop mt h targets (Suc j) ps ?acc = (None, res)"
    by (simp add: Let_def split: if_splits)
  have "fst res \<longleftrightarrow> (fst ?acc \<and> (\<forall>k<length ps. norm2 (direction (targets ! (Suc j + k)) (ps ! k)) \<le> stop_threshold h))"
    by (rule Cons.IH [OF run])
  then show ?case
    by (auto simp: less_Suc_eq_0_disj)
qed

lemma norm2_direction: "norm2 (direction t p) = dist_to_target p t"
  by (simp add: norm2_def direction_def dist_to_target_def power2_commute add.commute)

lemma motion_supervision_stop:
  assumes "motion_supervision mt h targets points = (None, stop, loss)"
  shows "stop \<longleftrightarrow> (\<forall>k<length points. dist_to_target (points ! k) (targets ! k) \<le> stop_threshold h)"
  using motion_loop_stop [OF assms [unfolded motion_supervision_def]]
  by (simp add: norm2_direction)

lemma track_points_length: "length (snd (track_points f h w r refs j ps)) = length ps"
proof (induction ps arbitrary: j)
  case Nil
  then show ?case by simp
next
  case (Cons p ps)
  show ?case using Cons.IH [of "Suc j"]
    by (cases "track_points f h w r refs (Suc j) ps") (simp split: sum.splits)
qed

text \<open>What each part of the drag branch leaves as it was.\<close>

lemma apply_reset_frame:
  "self_w (apply_reset s a) = self_w s"
  "self_w_grad (apply_reset s a) = self_w_grad s"
  "self_w_optim (apply_reset s a) = self_w_optim s"
  "self_w0 (apply_reset s a) = self_w0 s"
  "self_G (apply_reset s a) = self_G s"
  "self_feat0_resize (apply_reset s a) = self_feat0_resize s"
  "self_is_old (apply_reset s a) = self_is_old s"
  "self_mean_latent (apply_reset s a) = self_mean_latent s"
  by (simp_all add: apply_reset_def Let_def)

lemma apply_reset_refs:
  "self_feat_refs (apply_reset s a) = (if reset_requested s a then Some None else self_feat_refs s)"
  "self_points0_pt (apply_reset s a) = (if reset_requested s a then Some None else self_points0_pt s)"
  by (simp_all add: apply_reset_def Let_def)

lemma init_feat_refs_frame:
  assumes "init_feat_refs s f h w ps = (e, s')"
  shows "self_w s' = self_w s \<and> self_w_grad s' = self_w_grad s \<and> self_w_optim s' = self_w_optim s
         \<and> self_G s' = self_G s \<and> self_w0 s' = self_w0 s"
  using assms by (auto simp: init_feat_refs_def split: prod.splits option.splits)

lemma drag_features_frame:
  assumes "drag_features env s a G feat = (e, s', fr)"
  shows "self_w s' = self_w s \<and> self_w_grad s' = self_w_grad s \<and> self_w_optim s' = self_w_optim s
         \<and> self_G s' = self_G s \<and> self_w0 s' = self_w0 s"
  using assms
  by (auto simp: drag_features_def Let_def split: sum.splits option.splits prod.splits
      dest: init_feat_refs_frame)

lemma drag_tracking_frame:
  assumes "drag_tracking s res a G fr = (e, s', res')"
  shows "self_w s' = self_w s \<and> self_w_grad s' = self_w_grad s \<and> self_w_optim s' = self_w_optim s
         \<and> self_G s' = self_G s \<and> self_w0 s' = self_w0 s \<and> r_error res' = r_error res"
  using assms
  by (auto simp: drag_tracking_def Let_def split: prod.splits option.splits)

lemma drag_tracking_points:
  assumes "drag_tracking s res a G fr = (None, s', res')"
  shows "\<exists>ps. r_points res' = Some ps \<and> length ps = length (a_points a)"
proof -
  obtain e ps where tp: "track_points fr (img_resolution G) (img_resolution G)
      (search_radius (a_r2 a) (img_resolution G))
      (case self_feat_refs s of Some (Some refs) \<Rightarrow> refs | _ \<Rightarrow> []) 0 (a_points a) = (e, ps)"
    by (cases "track_points fr (img_resolution G) (img_resolution G)
      (search_radius (a_r2 a) (img_resolution G))
      (case self_feat_refs s of Some (Some refs) \<Rightarrow> refs | _ \<Rightarrow> []) 0 (a_points a)")
  have len: "length ps = length (a_points a)"
    using track_points_length [of fr "img_resolution G" "img_resolution G"
        "search_radius (a_r2 a) (img_resolution G)"
        "(case self_feat_refs s of Some (Some refs) \<Rightarrow> refs | _ \<Rightarrow> [])" 0 "a_points a"] tp
    by simp
  show ?thesis using assms tp len
    by (auto simp: drag_tracking_def Let_def split: option.splits)
qed

lemma optimize_stop: "optimize env s a ps w True loss = (None, s)"
  by (simp add: optimize_def)

lemma drag_supervision_stop:
  assumes "drag_supervision env s res a G w ws w0 fr ps = (None, s', res')"
  shows "\<exists>stop. r_stop res' = Some stop \<and> r_points res' = r_points res \<and> r_error res' = r_error res \<and>
           (stop \<longleftrightarrow> (\<forall>k<length ps. dist_to_target (ps ! k) (a_targets a ! k)
                        \<le> stop_threshold (img_resolution G))) \<and>
           (stop \<longrightarrow> s' = s)"
proof -
  let ?ms = "motion_supervision (motion_term env fr (img_resolution G) (a_r1 a)) (img_resolution G) (a_targets a) ps"
  obtain e stop lm where ms: "?ms = (e, stop, lm)" by (cases ?ms) auto
  with assms have e: "e = None"
    by (cases e) (simp_all add: drag_supervision_def Let_def)
  obtain loss where tl: "total_loss env s a fr ws w0 lm = Inr loss"
    using assms ms e by (cases "total_loss env s a fr ws w0 lm") (simp_all add: drag_supervision_def Let_def)
  have opt: "optimize env s a ps w stop loss = (None, s')" and res': "res' = res\<lparr>r_stop := Some stop\<rparr>"
    using assms ms e tl by (auto simp: drag_supervision_def Let_def split: prod.splits)
  have "stop \<longleftrightarrow> (\<forall>k<length ps. dist_to_target (ps ! k) (a_targets a ! k)
                        \<le> stop_threshold (img_resolution G))"
    using motion_supervision_stop ms e by blast
  moreover have "stop \<longrightarrow> s' = s" using opt by (auto simp: optimize_stop)
  ultimately show ?thesis using res' by simp
qed

lemma drag_branch_ok:
  assumes "drag_branch env s res a G w ws w0 feat = (None, s', res')"
  shows "\<exists>ps stop. r_points res' = Some ps \<and> r_stop res' = Some stop \<and>
           length ps = length (a_points a) \<and>
           (stop \<longleftrightarrow> (\<forall>k<length ps. dist_to_target (ps ! k) (a_targets a ! k)
                        \<le> stop_threshold (img_resolution G))) \<and>
           (stop \<longrightarrow> self_w s' = self_w s \<and> self_w_grad s' = self_w_grad s \<and>
                      self_w_optim s' = self_w_optim s)"
proof -
  obtain e1 s1 fr where df: "drag_features env s a G feat = (e1, s1, fr)"
    by (cases "drag_features env s a G feat") auto
  with assms have e1: "e1 = None" by (cases e1) (simp_all add: drag_branch_def)
  obtain e2 s2 res2 where dt: "drag_tracking s1 res a G fr = (e2, s2, res2)"
    by (cases "drag_tracking s1 res a G fr") auto
  with assms df e1 have e2: "e2 = None" by (cases e2) (simp_all add: drag_branch_def)
  obtain ps where ps: "r_points res2 = Some ps" "length ps = length (a_points a)"
    using drag_tracking_points dt e2 by blast
  have ds: "drag_supervision env s2 res2 a G w ws w0 fr ps = (None, s', res')"
    using assms df e1 dt e2 ps by (simp add: drag_branch_def)
  from drag_supervision_stop [OF ds] obtain stop where st:
    "r_stop res' = Some stop" "r_points res' = r_points res2"
    "stop \<longleftrightarrow> (\<forall>k<length ps. dist_to_target (ps ! k) (a_targets a ! k)
                        \<le> stop_threshold (img_resolution G))"
    "stop \<longrightarrow> s' = s2" by blast
  have fr1: "self_w s1 = self_w s \<and> self_w_grad s1 = self_w_grad s \<and> self_w_optim s1 = self_w_optim s"
    using drag_features_frame [OF df] by simp
  have fr2: "self_w s2 = self_w s1 \<and> self_w_grad s2 = self_w_grad s1 \<and> self_w_optim s2 = self_w_optim s1"
    using drag_tracking_frame [OF dt] by simp
  show ?thesis using st ps fr1 fr2 by auto
qed

lemma render_drag_impl_drag_ok:
  assumes run: "render_drag_impl env s res a = (None, s', res')"
    and drag: "a_is_drag a" and G: "self_G s = Some G"
  shows "\<exists>ps stop. r_points res' = Some ps \<and> r_stop res' = Some stop \<and>
           length ps = length (a_points a) \<and>
           (stop \<longleftrightarrow> (\<forall>k<length ps. dist_to_target (ps ! k) (a_targets a ! k)
                        \<le> stop_threshold (img_resolution G))) \<and>
           (stop \<longrightarrow> self_w s' = self_w s \<and> self_w_grad s' = self_w_grad s \<and>
                      self_w_optim s' = self_w_optim s)"
proof -
  obtain w where w: "self_w s = Some w"
    using run G by (cases "self_w s") (simp_all add: render_drag_impl_def)
  obtain w0 where w0: "self_w0 s = Some w0"
    using run G w by (cases "self_w0 s") (simp_all add: render_drag_impl_def)
  let ?s1 = "apply_reset s a"
  let ?ws = "effective_ws w w0"
  obtain img feat where syn: "synthesis env (self_is_old ?s1) G (self_mean_latent ?s1) ?ws
                (a_trunc_psi a) (a_noise_mode a) = Inr (img, feat)"
    using run G w w0
    by (cases "synthesis env (self_is_old ?s1) G (self_mean_latent ?s1) ?ws
                (a_trunc_psi a) (a_noise_mode a)") (auto simp: render_drag_impl_def Let_def)
  obtain e s2 res2 where db: "drag_branch env ?s1 res a G w ?ws w0 feat = (e, s2, res2)"
    by (cases "drag_branch env ?s1 res a G w ?ws w0 feat") auto
  have e: "e = None" and s': "s' = s2"
    and res': "res' = res2\<lparr>r_image := Some (postprocess env img (a_img_normalize a)
                                           (a_img_scale_db a) (a_to_pil a))\<rparr>"
    using run G w w0 syn db drag by (cases e; simp add: render_drag_impl_def Let_def)+
  from drag_branch_ok [OF db [unfolded e]] show ?thesis
    unfolding s' res' by (simp add: apply_reset_frame)
qed

section \<open>The instance, run\<close>

lemma patch_dists_Nil: "patch_dists f ref rows cols = [] \<longleftrightarrow> rows = [] \<or> cols = []"
  by (cases cols) (auto simp: patch_dists_def)

lemma track_point_unfold:
  "track_point feat_resize h w r ref point =
     (let up = max (fst point - r) 0;
          down = min (fst point + r + 1) h;
          left = max (snd point - r) 0;
          right = min (snd point + r + 1) w;
          rows = slice_range h up down; cols = slice_range w left right
      in if rows = [] \<or> cols = [] then Inl RuntimeError
         else Inr (int (argmin_first (patch_dists feat_resize ref rows cols)) div (right - left) + up,
                   int (argmin_first (patch_dists feat_resize ref rows cols)) mod (right - left) + left))"
  by (simp add: track_point_def Let_def patch_dists_Nil)

lemma l2dist_single: "l2dist [a] [b] = \<bar>a - b\<bar>"
  by (simp add: l2dist_def)

lemma example_radius: "search_radius 12 128 = 3"
  by (simp add: search_radius_def py_round_def)

lemma example_threshold: "stop_threshold 128 = 2"
  by (simp add: stop_threshold_def)

lemma example_slices:
  "slice_range 128 4 11 = [4, 5, 6, 7, 8, 9, 10]"
  "slice_range 128 7 14 = [7, 8, 9, 10, 11, 12, 13]"
  by (simp_all add: slice_range_def slice_bound_def)

lemma example_patch:
  "patch_dists example_feat [0] [4, 5, 6, 7, 8, 9, 10] [7, 8, 9, 10, 11, 12, 13] =
     [6, 5, 4, 3, 4, 5, 6,  5, 4, 3, 2, 3, 4, 5,  4, 3, 2, 1, 2, 3, 4,  3, 2, 1, 0, 1, 2, 3,
      4, 3, 2, 1, 2, 3, 4,  5, 4, 3, 2, 3, 4, 5,  6, 5, 4, 3, 4, 5, 6]"
  by (simp add: patch_dists_def example_feat_def l2dist_single)

lemma example_track_point: "track_point example_feat 128 128 3 [0] (7, 10) = Inr (7, 10)"
  by (simp add: track_point_unfold example_slices example_patch argmin_first_def Let_def)

lemma example_feat_at: "example_feat 7 10 = [0]"
  by (simp add: example_feat_def)

lemma example_sample_refs: "sample_refs example_feat 128 128 [(7, 10)] [] = (None, [[0]])"
  by (simp add: py_index_def example_feat_at)

lemma example_supervision:
  "motion_supervision mt 128 [(9, 10)] [(7, 10)] = (None, True, mt (7, 10) (0, 2))"
  by (simp add: motion_supervision_def direction_def norm2_def example_threshold)

lemma example_features:
  "drag_features example_env (apply_reset example_ready example_args) example_args example_net
     [example_feat, example_feat, example_feat, example_feat, example_feat, example_feat]
   = (None, example_after, example_feat)"
  by (simp add: drag_features_def py_nth_def py_index_def init_feat_refs_def example_sample_refs
      apply_reset_def reset_requested_def example_ready_def example_args_def example_env_def
      example_net_def points_tensor_def example_after_def example_feat_at)

lemma example_tracking:
  "drag_tracking example_after res example_args example_net example_feat
   = (None, example_after, res\<lparr>r_points := Some [(7, 10)]\<rparr>)"
  by (simp add: drag_tracking_def example_after_def example_ready_def example_args_def
      example_net_def example_radius example_track_point)

lemma example_supervise:
  "drag_supervision example_env example_after res example_args example_net w ws w0 example_feat [(7, 10)]
   = (None, example_after, res\<lparr>r_stop := Some True\<rparr>)"
  by (simp add: drag_supervision_def example_args_def example_net_def example_supervision
      total_loss_def optimize_def)

lemma example_drag_run:
  "render_drag_impl example_env example_ready res example_args =
     (None, example_after,
      res\<lparr>r_points := Some [(7, 10)], r_stop := Some True,
          r_image := Some (Tensor [3, 1, 1] [0, 0, 0])\<rparr>)"
proof -
  have syn: "synthesis example_env old G ml ws psi noise = Inr (Tensor [3, 1, 1] [0, 0, 0],
      [example_feat, example_feat, example_feat, example_feat, example_feat, example_feat])"
    for old G ml ws psi noise
    by (simp add: example_env_def)
  have pp: "postprocess example_env img n db pil = img" for img n db pil
    by (simp add: example_env_def)
  have flds: "self_G example_ready = Some example_net"
    "self_w example_ready = Some (W3 (replicate 8 [0]))"
    "self_w0 example_ready = Some (replicate 8 [0])"
    by (simp_all add: example_ready_def)
  have drag: "a_is_drag example_args" by (simp add: example_args_def)
  show ?thesis
    by (simp add: render_drag_impl_def flds syn pp drag drag_branch_def example_features
        example_tracking example_supervise Let_def)
qed

section \<open>The stop flag and the converged step\<close>

text \<open>
  C1, as the code has it: on a drag step that returns, \<^verbatim>\<open>res.stop\<close> is true exactly when
  every point, as the tracker relocated it in this step (\<^verbatim>\<open>res.points\<close>), is at distance
  at most \<open>max (2 / 512 * resolution) 2\<close> from its target. A point exactly at that distance
  counts as converged.
\<close>

theorem stop_flag_iff_within_threshold:
  assumes "render_drag_impl env s res a = (None, s', res')"
    and "a_is_drag a" and "self_G s = Some G"
  shows "\<exists>ps stop. r_points res' = Some ps \<and> r_stop res' = Some stop \<and>
           length ps = length (a_points a) \<and>
           (stop \<longleftrightarrow> (\<forall>k<length ps. dist_to_target (ps ! k) (a_targets a ! k)
                        \<le> stop_threshold (img_resolution G)))"
  using render_drag_impl_drag_ok [OF assms] by blast

theorem stop_flag_iff_within_threshold_witness:
  "render_drag_impl example_env example_ready empty_result example_args =
     (None, example_after,
      empty_result\<lparr>r_points := Some [(7, 10)], r_stop := Some True,
                   r_image := Some (Tensor [3, 1, 1] [0, 0, 0])\<rparr>) \<and>
   a_is_drag example_args \<and> self_G example_ready = Some example_net \<and>
   (\<exists>ps stop. r_points (empty_result\<lparr>r_points := Some [(7, 10)], r_stop := Some True,
                   r_image := Some (Tensor [3, 1, 1] [0, 0, 0])\<rparr>) = Some ps \<and>
      r_stop (empty_result\<lparr>r_points := Some [(7, 10)], r_stop := Some True,
                   r_image := Some (Tensor [3, 1, 1] [0, 0, 0])\<rparr>) = Some stop \<and>
      length ps = length (a_points example_args) \<and>
      (stop \<longleftrightarrow> (\<forall>k<length ps. dist_to_target (ps ! k) (a_targets example_args ! k)
                        \<le> stop_threshold (img_resolution example_net))))"
proof -
  have run: "render_drag_impl example_env example_ready empty_result example_args =
     (None, example_after,
      empty_result\<lparr>r_points := Some [(7, 10)], r_stop := Some True,
                   r_image := Some (Tensor [3, 1, 1] [0, 0, 0])\<rparr>)"
    by (rule example_drag_run)
  have drag: "a_is_drag example_args" by (simp add: example_args_def)
  have G: "self_G example_ready = Some example_net" by (simp add: example_ready_def)
  show ?thesis
    using stop_flag_iff_within_threshold [OF run drag G] run drag G by blast
qed

text \<open>
  C1 as stated fails on the boundary: at resolution 128 the point (7, 10), which the
  tracker leaves in place, is at distance exactly 2 from its target (9, 10); the step
  returns stop = True, although the distance is not below the threshold 2.
\<close>

theorem stop_flag_boundary_counterexample:
  "render_drag_impl example_env example_ready empty_result example_args =
     (None, example_after,
      empty_result\<lparr>r_points := Some [(7, 10)], r_stop := Some True,
                   r_image := Some (Tensor [3, 1, 1] [0, 0, 0])\<rparr>) \<and>
   a_is_drag example_args \<and> a_points example_args = [(7, 10)] \<and>
   a_targets example_args = [(9, 10)] \<and> self_G example_ready = Some example_net \<and>
   \<not> dist_to_target (7, 10) (9, 10) < max (2 / 512 * of_int (img_resolution example_net)) 2"
proof -
  have "\<not> dist_to_target (7, 10) (9, 10) < max (2 / 512 * of_int (img_resolution example_net)) 2"
    by (simp add: example_net_def dist_to_target_def)
  moreover have "a_is_drag example_args \<and> a_points example_args = [(7, 10)] \<and>
      a_targets example_args = [(9, 10)]"
    by (simp add: example_args_def)
  moreover have "self_G example_ready = Some example_net"
    by (simp add: example_ready_def)
  ultimately show ?thesis using example_drag_run [of empty_result] by blast
qed

text \<open>
  C7, for the points as relocated by the tracker: on a drag step that returns with every
  relocated point within the threshold of its target, \<^verbatim>\<open>res.stop\<close> is true and the latent,
  its gradient and the optimizer are what they were before the step.
\<close>

theorem converged_step_applies_no_update:
  assumes "render_drag_impl env s res a = (None, s', res')"
    and "a_is_drag a" and "self_G s = Some G"
    and "r_points res' = Some ps"
    and "\<forall>k<length ps. dist_to_target (ps ! k) (a_targets a ! k)
            \<le> stop_threshold (img_resolution G)"
  shows "r_stop res' = Some True \<and> self_w s' = self_w s \<and> self_w_grad s' = self_w_grad s \<and>
         self_w_optim s' = self_w_optim s"
  using render_drag_impl_drag_ok [OF assms(1-3)] assms(4,5) by auto

theorem converged_step_applies_no_update_witness:
  "render_drag_impl example_env example_ready empty_result example_args =
     (None, example_after,
      empty_result\<lparr>r_points := Some [(7, 10)], r_stop := Some True,
                   r_image := Some (Tensor [3, 1, 1] [0, 0, 0])\<rparr>) \<and>
   a_is_drag example_args \<and> self_G example_ready = Some example_net \<and>
   r_points (empty_result\<lparr>r_points := Some [(7, 10)], r_stop := Some True,
                   r_image := Some (Tensor [3, 1, 1] [0, 0, 0])\<rparr>) = Some [(7, 10)] \<and>
   dist_to_target (7, 10) (9, 10) \<le> stop_threshold (img_resolution example_net) \<and>
   self_w example_after = self_w example_ready \<and>
   self_w_grad example_after = self_w_grad example_ready \<and>
   self_w_optim example_after = self_w_optim example_ready"
proof -
  have run: "render_drag_impl example_env example_ready empty_result example_args =
     (None, example_after,
      empty_result\<lparr>r_points := Some [(7, 10)], r_stop := Some True,
                   r_image := Some (Tensor [3, 1, 1] [0, 0, 0])\<rparr>)"
    by (rule example_drag_run)
  have drag: "a_is_drag example_args" by (simp add: example_args_def)
  have G: "self_G example_ready = Some example_net" by (simp add: example_ready_def)
  have pts: "r_points (empty_result\<lparr>r_points := Some [(7, 10)], r_stop := Some True,
                   r_image := Some (Tensor [3, 1, 1] [0, 0, 0])\<rparr>) = Some [(7, 10)]"
    by simp
  have near: "\<forall>k<length [(7, 10) :: point].
      dist_to_target ([(7, 10)] ! k) (a_targets example_args ! k)
            \<le> stop_threshold (img_resolution example_net)"
    by (simp add: example_args_def example_net_def example_threshold dist_to_target_def)
  have d: "dist_to_target (7, 10) (9, 10) \<le> stop_threshold (img_resolution example_net)"
    by (simp add: example_net_def example_threshold dist_to_target_def)
  show ?thesis
    using converged_step_applies_no_update [OF run drag G pts near] run drag G pts d
    by blast
qed

section \<open>A point on its target that the tracker moves away\<close>

lemma sqrt_nine: "sqrt 9 = 3"
proof -
  have "sqrt 9 = sqrt (3\<^sup>2)" by simp
  also have "\<dots> = 3" by (simp only: real_sqrt_abs abs_numeral)
  finally show ?thesis .
qed

lemma example_slices_moved:
  "slice_range 128 7 14 = [7, 8, 9, 10, 11, 12, 13]"
  by (simp add: slice_range_def slice_bound_def)

lemma example_patch_moved:
  "patch_dists example_feat [0] [7, 8, 9, 10, 11, 12, 13] [7, 8, 9, 10, 11, 12, 13] =
     [3, 2, 1, 0, 1, 2, 3,  4, 3, 2, 1, 2, 3, 4,  5, 4, 3, 2, 3, 4, 5,  6, 5, 4, 3, 4, 5, 6,
      7, 6, 5, 4, 5, 6, 7,  8, 7, 6, 5, 6, 7, 8,  9, 8, 7, 6, 7, 8, 9]"
  by (simp add: patch_dists_def example_feat_def l2dist_single)

lemma example_track_moved: "track_point example_feat 128 128 3 [0] (10, 10) = Inr (7, 10)"
  by (simp add: track_point_unfold example_slices_moved example_patch_moved argmin_first_def Let_def)

lemma example_supervision_moved:
  "motion_supervision mt 128 [(10, 10)] [(7, 10)] = (None, False, mt (7, 10) (0, 3))"
  by (simp add: motion_supervision_def direction_def norm2_def example_threshold sqrt_nine)

lemma example_second_run:
  "render_drag_impl example_env example_after empty_result
     (example_args\<lparr>a_points := [(10, 10)], a_targets := [(10, 10)]\<rparr>) =
     (None,
      example_after\<lparr>self_points := Some [(7, 10)],
        self_w := Some (W3 (replicate 8 [1])), self_w_grad := Some (W3 (replicate 8 [0])),
        self_w_optim := Some \<lparr>lr = 0.001, moments = [Tensor [1] [1]]\<rparr>\<rparr>,
      empty_result\<lparr>r_points := Some [(7, 10)], r_stop := Some False,
                   r_image := Some (Tensor [3, 1, 1] [0, 0, 0])\<rparr>)"
proof -
  let ?a = "example_args\<lparr>a_points := [(10, 10)], a_targets := [(10, 10)]\<rparr>"
  let ?feat = "[example_feat, example_feat, example_feat, example_feat, example_feat, example_feat]"
  let ?s1 = "example_after\<lparr>self_points := Some [(10, 10)]\<rparr>"
  let ?s2 = "example_after\<lparr>self_points := Some [(7, 10)]\<rparr>"
  have syn: "synthesis example_env old G ml ws psi noise = Inr (Tensor [3, 1, 1] [0, 0, 0], ?feat)"
    for old G ml ws psi noise
    by (simp add: example_env_def)
  have pp: "postprocess example_env img n db pil = img" for img n db pil
    by (simp add: example_env_def)
  have flds: "self_G example_after = Some example_net"
    "self_w example_after = Some (W3 (replicate 8 [0]))"
    "self_w0 example_after = Some (replicate 8 [0])"
    by (simp_all add: example_after_def example_ready_def)
  have drag: "a_is_drag ?a" by (simp add: example_args_def)
  have reset: "apply_reset example_after ?a = ?s1"
    by (simp add: apply_reset_def reset_requested_def example_after_def example_args_def)
  have feats: "drag_features example_env ?s1 ?a example_net ?feat = (None, ?s1, example_feat)"
    by (simp add: drag_features_def py_nth_def py_index_def example_after_def example_args_def
        example_env_def)
  have track: "drag_tracking ?s1 res ?a example_net example_feat
      = (None, ?s2, res\<lparr>r_points := Some [(7, 10)]\<rparr>)" for res
    by (simp add: drag_tracking_def example_after_def example_ready_def example_args_def
        example_net_def example_radius example_track_moved)
  have step: "optim_step example_env s a ps w opt loss
      = Inr (example_step w, Some w, opt\<lparr>moments := [Tensor [1] [loss]]\<rparr>)" for s a ps w opt loss
    by (simp add: example_env_def)
  have mt: "motion_term example_env f h r1 p d = 1" for f h r1 p d
    by (simp add: example_env_def)
  have sup: "drag_supervision example_env ?s2 res ?a example_net (W3 (replicate 8 [0])) ws w0
        example_feat [(7, 10)]
      = (None, ?s2\<lparr>self_w := Some (W3 (replicate 8 [1])),
           self_w_grad := Some (W3 (replicate 8 [0])),
           self_w_optim := Some \<lparr>lr = 0.001, moments = [Tensor [1] [1]]\<rparr>\<rparr>,
         res\<lparr>r_stop := Some False\<rparr>)" for res ws w0
    by (simp add: drag_supervision_def example_args_def example_net_def example_supervision_moved
        total_loss_def optimize_def step mt example_step_def example_after_def example_ready_def)
  show ?thesis
    by (simp add: render_drag_impl_def flds syn pp drag drag_branch_def reset feats track sup
        Let_def)
qed

text \<open>
  C7 as stated fails for a point that equals its target on entry: after the step above,
  a call with the point and its target both at (10, 10) relocates the point to (7, 10),
  at distance 3 from the target; the step returns stop = False and the optimizer update
  changes the latent.
\<close>

theorem point_on_target_counterexample:
  "a_points (example_args\<lparr>a_points := [(10, 10)], a_targets := [(10, 10)]\<rparr>) =
     a_targets (example_args\<lparr>a_points := [(10, 10)], a_targets := [(10, 10)]\<rparr>) \<and>
   a_is_drag (example_args\<lparr>a_points := [(10, 10)], a_targets := [(10, 10)]\<rparr>) \<and>
   render_drag_impl example_env example_after empty_result
     (example_args\<lparr>a_points := [(10, 10)], a_targets := [(10, 10)]\<rparr>) =
     (None,
      example_after\<lparr>self_points := Some [(7, 10)],
        self_w := Some (W3 (replicate 8 [1])), self_w_grad := Some (W3 (replicate 8 [0])),
        self_w_optim := Some \<lparr>lr = 0.001, moments = [Tensor [1] [1]]\<rparr>\<rparr>,
      empty_result\<lparr>r_points := Some [(7, 10)], r_stop := Some False,
                   r_image := Some (Tensor [3, 1, 1] [0, 0, 0])\<rparr>) \<and>
   self_w example_after = Some (W3 (replicate 8 [0])) \<and>
   W3 (replicate 8 [1]) \<noteq> W3 (replicate 8 [0 :: real])"
proof -
  have "a_points (example_args\<lparr>a_points := [(10, 10)], a_targets := [(10, 10)]\<rparr>) =
     a_targets (example_args\<lparr>a_points := [(10, 10)], a_targets := [(10, 10)]\<rparr>) \<and>
   a_is_drag (example_args\<lparr>a_points := [(10, 10)], a_targets := [(10, 10)]\<rparr>)"
    by (simp add: example_args_def)
  moreover have "self_w example_after = Some (W3 (replicate 8 [0]))"
    by (simp add: example_after_def example_ready_def)
  moreover have "W3 (replicate 8 [1]) \<noteq> W3 (replicate 8 [0 :: real])"
    by (simp add: eval_nat_numeral)
  ultimately show ?thesis using example_second_run by blast
qed

section \<open>What the tracker returns\<close>

lemma in_image_radius:
  assumes "\<forall>p\<in>set points. in_image h w p" "0 \<le> r2" "points \<noteq> []"
  shows "0 \<le> search_radius r2 h"
proof -
  obtain p where "p \<in> set points" using assms(3) by (cases points) auto
  then have "0 \<le> h" using assms(1) by (auto simp: in_image_def)
  then show ?thesis using assms(2) by (rule search_radius_nonneg [rotated])
qed

text \<open>
  C2: for points inside the image, a reference vector for each of them and a radius
  parameter \<open>r2 \<ge> 0\<close>, the tracking loop returns, and it moves point \<open>j\<close> to a location of
  the window of half-width \<open>round (r2 / 512 * h)\<close> around its previous location, clipped to
  the image, at which the Euclidean distance between the feature vector and
  \<^verbatim>\<open>feat_refs[j]\<close> is minimal over the window; every location of the window that comes
  before it in row-major order is strictly farther.
\<close>

theorem tracker_relocates_to_first_nearest:
  assumes "\<forall>p\<in>set points. in_image h w p"
    and "length points \<le> length refs"
    and "0 \<le> r2"
  shows "\<exists>ps. track_points feat_resize h w (search_radius r2 h) refs 0 points = (None, ps) \<and>
     (\<forall>j<length points.
        window h w (search_radius r2 h) (points ! j) (ps ! j) \<and>
        (\<forall>q. window h w (search_radius r2 h) (points ! j) q \<longrightarrow>
             l2dist (feat_resize (fst (ps ! j)) (snd (ps ! j))) (refs ! j)
               \<le> l2dist (feat_resize (fst q) (snd q)) (refs ! j)) \<and>
        (\<forall>q. window h w (search_radius r2 h) (points ! j) q \<and> scans_before q (ps ! j) \<longrightarrow>
             l2dist (feat_resize (fst (ps ! j)) (snd (ps ! j))) (refs ! j)
               < l2dist (feat_resize (fst q) (snd q)) (refs ! j)))"
proof (cases "points = []")
  case True
  then show ?thesis by simp
next
  case False
  have r: "0 \<le> search_radius r2 h"
    using in_image_radius [OF assms(1) assms(3) False] .
  have len: "0 + length points \<le> length refs" using assms(2) by simp
  obtain ps where run: "track_points feat_resize h w (search_radius r2 h) refs 0 points = (None, ps)"
    and nf: "\<forall>k<length points. nearest_first feat_resize h w (search_radius r2 h)
               (refs ! (0 + k)) (points ! k) (ps ! k)"
    using track_points_spec [OF assms(1) len r, of feat_resize] by blast
  have "\<forall>j<length points.
        window h w (search_radius r2 h) (points ! j) (ps ! j) \<and>
        (\<forall>q. window h w (search_radius r2 h) (points ! j) q \<longrightarrow>
             l2dist (feat_resize (fst (ps ! j)) (snd (ps ! j))) (refs ! j)
               \<le> l2dist (feat_resize (fst q) (snd q)) (refs ! j)) \<and>
        (\<forall>q. window h w (search_radius r2 h) (points ! j) q \<and> scans_before q (ps ! j) \<longrightarrow>
             l2dist (feat_resize (fst (ps ! j)) (snd (ps ! j))) (refs ! j)
               < l2dist (feat_resize (fst q) (snd q)) (refs ! j))"
  proof (intro allI impI)
    fix j assume "j < length points"
    then have "nearest_first feat_resize h w (search_radius r2 h) (refs ! j) (points ! j) (ps ! j)"
      using nf by simp
    then show "window h w (search_radius r2 h) (points ! j) (ps ! j) \<and>
        (\<forall>q. window h w (search_radius r2 h) (points ! j) q \<longrightarrow>
             l2dist (feat_resize (fst (ps ! j)) (snd (ps ! j))) (refs ! j)
               \<le> l2dist (feat_resize (fst q) (snd q)) (refs ! j)) \<and>
        (\<forall>q. window h w (search_radius r2 h) (points ! j) q \<and> scans_before q (ps ! j) \<longrightarrow>
             l2dist (feat_resize (fst (ps ! j)) (snd (ps ! j))) (refs ! j)
               < l2dist (feat_resize (fst q) (snd q)) (refs ! j))"
      unfolding nearest_first_def .
  qed
  with run show ?thesis by (intro exI conjI)
qed

theorem tracker_relocates_to_first_nearest_witness:
  "in_image 128 128 (7, 10) \<and> length [(7, 10) :: point] \<le> length [[0 :: real]] \<and>
   (0 :: real) \<le> 12 \<and>
   (\<exists>ps. track_points example_feat 128 128 (search_radius 12 128) [[0 :: real]] 0 [(7, 10) :: point] = (None, ps) \<and>
     (\<forall>j<length [(7, 10) :: point].
        window 128 128 (search_radius 12 128) ([(7, 10) :: point] ! j) (ps ! j) \<and>
        (\<forall>q. window 128 128 (search_radius 12 128) ([(7, 10) :: point] ! j) q \<longrightarrow>
             l2dist (example_feat (fst (ps ! j)) (snd (ps ! j))) ([[0 :: real]] ! j)
               \<le> l2dist (example_feat (fst q) (snd q)) ([[0 :: real]] ! j)) \<and>
        (\<forall>q. window 128 128 (search_radius 12 128) ([(7, 10) :: point] ! j) q \<and> scans_before q (ps ! j) \<longrightarrow>
             l2dist (example_feat (fst (ps ! j)) (snd (ps ! j))) ([[0 :: real]] ! j)
               < l2dist (example_feat (fst q) (snd q)) ([[0 :: real]] ! j))))"
proof -
  have inb: "\<forall>p\<in>set [(7, 10) :: point]. in_image 128 128 p" by (simp add: in_image_def)
  have len: "length [(7, 10) :: point] \<le> length [[0 :: real]]" by simp
  have r2: "(0 :: real) \<le> 12" by simp
  have p: "in_image 128 128 (7, 10)" by (simp add: in_image_def)
  show ?thesis
    by (intro conjI p len r2 tracker_relocates_to_first_nearest [OF inb len r2])
qed

text \<open>
  C8: under the same conditions the list returned by the tracker has the length of the
  list given, its point \<open>j\<close> is the relocation of point \<open>j\<close> of the input (it lies in the
  window around it), and every relocated point is inside the image: row in \<open>[0, h)\<close>,
  column in \<open>[0, w)\<close>.
\<close>

theorem tracked_points_same_length_in_image:
  assumes "\<forall>p\<in>set points. in_image h w p"
    and "length points \<le> length refs"
    and "0 \<le> r2"
  shows "\<exists>ps. track_points feat_resize h w (search_radius r2 h) refs 0 points = (None, ps) \<and>
     length ps = length points \<and>
     (\<forall>j<length ps. 0 \<le> fst (ps ! j) \<and> fst (ps ! j) < h \<and> 0 \<le> snd (ps ! j) \<and> snd (ps ! j) < w \<and>
        \<bar>fst (ps ! j) - fst (points ! j)\<bar> \<le> search_radius r2 h \<and>
        \<bar>snd (ps ! j) - snd (points ! j)\<bar> \<le> search_radius r2 h)"
proof (cases "points = []")
  case True
  then show ?thesis by simp
next
  case False
  have r: "0 \<le> search_radius r2 h"
    using in_image_radius [OF assms(1) assms(3) False] .
  have len: "0 + length points \<le> length refs" using assms(2) by simp
  obtain ps where run: "track_points feat_resize h w (search_radius r2 h) refs 0 points = (None, ps)"
    and lps: "length ps = length points"
    and nf: "\<forall>k<length points. nearest_first feat_resize h w (search_radius r2 h)
               (refs ! (0 + k)) (points ! k) (ps ! k)"
    using track_points_spec [OF assms(1) len r, of feat_resize] by blast
  have "\<forall>j<length ps. 0 \<le> fst (ps ! j) \<and> fst (ps ! j) < h \<and> 0 \<le> snd (ps ! j) \<and> snd (ps ! j) < w \<and>
        \<bar>fst (ps ! j) - fst (points ! j)\<bar> \<le> search_radius r2 h \<and>
        \<bar>snd (ps ! j) - snd (points ! j)\<bar> \<le> search_radius r2 h"
  proof (intro allI impI)
    fix j assume "j < length ps"
    then have "nearest_first feat_resize h w (search_radius r2 h) (refs ! (0 + j)) (points ! j) (ps ! j)"
      using nf lps by simp
    then have "window h w (search_radius r2 h) (points ! j) (ps ! j)"
      unfolding nearest_first_def by (rule conjunct1)
    then show "0 \<le> fst (ps ! j) \<and> fst (ps ! j) < h \<and> 0 \<le> snd (ps ! j) \<and> snd (ps ! j) < w \<and>
        \<bar>fst (ps ! j) - fst (points ! j)\<bar> \<le> search_radius r2 h \<and>
        \<bar>snd (ps ! j) - snd (points ! j)\<bar> \<le> search_radius r2 h"
      unfolding window_def in_image_def by simp
  qed
  with run lps show ?thesis by (intro exI conjI)
qed

theorem tracked_points_same_length_in_image_witness:
  "in_image 128 128 (7, 10) \<and> length [(7, 10) :: point] \<le> length [[0 :: real]] \<and>
   (0 :: real) \<le> 12 \<and>
   (\<exists>ps. track_points example_feat 128 128 (search_radius 12 128) [[0 :: real]] 0 [(7, 10) :: point] = (None, ps) \<and>
     length ps = length [(7, 10) :: point] \<and>
     (\<forall>j<length ps. 0 \<le> fst (ps ! j) \<and> fst (ps ! j) < 128 \<and> 0 \<le> snd (ps ! j) \<and> snd (ps ! j) < 128 \<and>
        \<bar>fst (ps ! j) - fst ([(7, 10) :: point] ! j)\<bar> \<le> search_radius 12 128 \<and>
        \<bar>snd (ps ! j) - snd ([(7, 10) :: point] ! j)\<bar> \<le> search_radius 12 128))"
proof -
  have inb: "\<forall>p\<in>set [(7, 10) :: point]. in_image 128 128 p" by (simp add: in_image_def)
  have len: "length [(7, 10) :: point] \<le> length [[0 :: real]]" by simp
  have r2: "(0 :: real) \<le> 12" by simp
  have p: "in_image 128 128 (7, 10)" by (simp add: in_image_def)
  show ?thesis
    by (intro conjI p len r2 tracked_points_same_length_in_image [OF inb len r2])
qed

section \<open>Calls without dragging, the reset, and the latent given to the synthesis network\<close>

lemma render_drag_impl_plain_frame:
  assumes "\<not> a_is_drag a" and "render_drag_impl env s res a = (e, s', res')"
  shows "s' = s \<or> s' = apply_reset s a"
  using assms
  by (auto simp: render_drag_impl_def Let_def split: option.splits sum.splits prod.splits)

lemma render_drag_impl_plain_ok:
  assumes "\<not> a_is_drag a" and "render_drag_impl env s res a = (None, s', res')"
  shows "s' = apply_reset s a"
  using assms
  by (auto simp: render_drag_impl_def Let_def split: option.splits sum.splits prod.splits)

lemma example_plain_run:
  "render_drag_impl example_env example_after empty_result
     (example_args\<lparr>a_is_drag := False, a_reset := True\<rparr>) =
     (None,
      example_after\<lparr>self_feat_refs := Some None, self_points0_pt := Some None\<rparr>,
      empty_result\<lparr>r_image := Some (Tensor [3, 1, 1] [0, 0, 0])\<rparr>)"
proof -
  let ?a = "example_args\<lparr>a_is_drag := False, a_reset := True\<rparr>"
  have syn: "synthesis example_env old G ml ws psi noise = Inr (Tensor [3, 1, 1] [0, 0, 0],
      [example_feat, example_feat, example_feat, example_feat, example_feat, example_feat])"
    for old G ml ws psi noise
    by (simp add: example_env_def)
  have pp: "postprocess example_env img n db pil = img" for img n db pil
    by (simp add: example_env_def)
  have flds: "self_G example_after = Some example_net"
    "self_w example_after = Some (W3 (replicate 8 [0]))"
    "self_w0 example_after = Some (replicate 8 [0])"
    by (simp_all add: example_after_def example_ready_def)
  have drag: "\<not> a_is_drag ?a" by simp
  have reset: "apply_reset example_after ?a =
      example_after\<lparr>self_feat_refs := Some None, self_points0_pt := Some None\<rparr>"
    by (simp add: apply_reset_def reset_requested_def example_after_def example_args_def)
  show ?thesis
    by (simp add: render_drag_impl_def flds syn pp reset Let_def)
qed

text \<open>
  C3, as the code has it: a call of \<^verbatim>\<open>_render_drag_impl\<close> with \<^verbatim>\<open>is_drag\<close> false leaves
  \<^verbatim>\<open>self.w\<close>, its gradient, \<^verbatim>\<open>self.w0\<close> and \<^verbatim>\<open>self.w_optim\<close> as they were, whatever the
  other arguments and whether or not it raises. \<^verbatim>\<open>self.feat_refs\<close> is left as it was when
  no reset is requested (neither the flag nor a change in the number of points); it is
  either left or set to \<^verbatim>\<open>None\<close> otherwise, and set to \<^verbatim>\<open>None\<close> when the call returns.
\<close>

theorem plain_render_keeps_latent_and_optimizer:
  assumes "\<not> a_is_drag a" and "render_drag_impl env s res a = (e, s', res')"
  shows "self_w s' = self_w s \<and> self_w_grad s' = self_w_grad s \<and> self_w0 s' = self_w0 s \<and>
         self_w_optim s' = self_w_optim s \<and>
         (\<not> reset_requested s a \<longrightarrow> self_feat_refs s' = self_feat_refs s) \<and>
         (reset_requested s a \<longrightarrow>
            self_feat_refs s' = self_feat_refs s \<or> self_feat_refs s' = Some None) \<and>
         (reset_requested s a \<and> e = None \<longrightarrow> self_feat_refs s' = Some None)"
proof -
  have ok: "e = None \<longrightarrow> s' = apply_reset s a"
    using render_drag_impl_plain_ok [OF assms(1)] assms(2) by auto
  show ?thesis
  proof (cases "s' = apply_reset s a")
    case True
    then show ?thesis by (simp add: apply_reset_frame apply_reset_refs)
  next
    case False
    then have "s' = s" and "e \<noteq> None"
      using render_drag_impl_plain_frame [OF assms] ok by auto
    then show ?thesis by auto
  qed
qed

theorem plain_render_keeps_latent_and_optimizer_witness:
  "\<not> a_is_drag (example_args\<lparr>a_is_drag := False, a_reset := True\<rparr>) \<and>
   render_drag_impl example_env example_after empty_result
     (example_args\<lparr>a_is_drag := False, a_reset := True\<rparr>) =
     (None,
      example_after\<lparr>self_feat_refs := Some None, self_points0_pt := Some None\<rparr>,
      empty_result\<lparr>r_image := Some (Tensor [3, 1, 1] [0, 0, 0])\<rparr>) \<and>
   reset_requested example_after (example_args\<lparr>a_is_drag := False, a_reset := True\<rparr>) \<and>
   self_w (example_after\<lparr>self_feat_refs := Some None, self_points0_pt := Some None\<rparr>)
     = self_w example_after \<and>
   self_w_optim (example_after\<lparr>self_feat_refs := Some None, self_points0_pt := Some None\<rparr>)
     = self_w_optim example_after \<and>
   self_feat_refs (example_after\<lparr>self_feat_refs := Some None, self_points0_pt := Some None\<rparr>)
     = Some None"
proof -
  let ?a = "example_args\<lparr>a_is_drag := False, a_reset := True\<rparr>"
  have nd: "\<not> a_is_drag ?a" by simp
  have rr: "reset_requested example_after ?a"
    by (simp add: reset_requested_def example_after_def example_args_def)
  show ?thesis
    using plain_render_keeps_latent_and_optimizer [OF nd example_plain_run] nd rr
      example_plain_run by simp
qed

text \<open>
  C3 as stated fails for \<^verbatim>\<open>self.feat_refs\<close>: with \<^verbatim>\<open>is_drag\<close> false and \<^verbatim>\<open>reset\<close> true
  the reference vectors cached by the preceding drag step are replaced by \<^verbatim>\<open>None\<close>.
\<close>

theorem plain_render_reset_counterexample:
  "\<not> a_is_drag (example_args\<lparr>a_is_drag := False, a_reset := True\<rparr>) \<and>
   render_drag_impl example_env example_after empty_result
     (example_args\<lparr>a_is_drag := False, a_reset := True\<rparr>) =
     (None,
      example_after\<lparr>self_feat_refs := Some None, self_points0_pt := Some None\<rparr>,
      empty_result\<lparr>r_image := Some (Tensor [3, 1, 1] [0, 0, 0])\<rparr>) \<and>
   self_feat_refs example_after = Some (Some [[0]]) \<and>
   self_feat_refs (example_after\<lparr>self_feat_refs := Some None, self_points0_pt := Some None\<rparr>)
     = Some None"
  using example_plain_run by (simp add: example_after_def)

text \<open>
  C4, as the code has it: a reset, requested by the flag or by a number of points that
  differs from the number tracked, sets \<^verbatim>\<open>self.feat_refs\<close> and \<^verbatim>\<open>self.points0_pt\<close> to
  \<^verbatim>\<open>None\<close> and leaves \<^verbatim>\<open>self.w\<close>, \<^verbatim>\<open>self.w0\<close> and the optimizer, so its learning rate,
  as they were. The snapshot \<^verbatim>\<open>self.feat0_resize\<close> is left too; the drag branch that
  follows a reset replaces it by the resized feature map of that call.
\<close>

theorem reset_clears_refs_keeps_latent:
  assumes "a_reset a \<or> (\<exists>ps. self_points s = Some ps \<and> length (a_points a) \<noteq> length ps)"
  shows "self_feat_refs (apply_reset s a) = Some None \<and>
         self_points0_pt (apply_reset s a) = Some None \<and>
         self_w (apply_reset s a) = self_w s \<and> self_w0 (apply_reset s a) = self_w0 s \<and>
         self_w_optim (apply_reset s a) = self_w_optim s \<and>
         map_option lr (self_w_optim (apply_reset s a)) = map_option lr (self_w_optim s) \<and>
         self_feat0_resize (apply_reset s a) = self_feat0_resize s \<and>
         (\<forall>env G feat f. py_nth feat (a_feature_idx a) = Inr f \<longrightarrow>
            self_feat0_resize (fst (snd (drag_features env (apply_reset s a) a G feat)))
              = Some (interpolate env f (img_resolution G) (img_resolution G)))"
proof -
  have rr: "reset_requested s a"
    using assms by (auto simp: reset_requested_def split: option.splits)
  have "self_feat0_resize (fst (snd (drag_features env (apply_reset s a) a G feat)))
              = Some (interpolate env f (img_resolution G) (img_resolution G))"
    if "py_nth feat (a_feature_idx a) = Inr f" for env G feat f
    using that rr
    by (simp add: drag_features_def apply_reset_refs init_feat_refs_def Let_def
        split: prod.splits option.splits)
  then show ?thesis using rr by (simp add: apply_reset_frame apply_reset_refs)
qed

theorem reset_clears_refs_keeps_latent_witness:
  "length (a_points (example_args\<lparr>a_points := []\<rparr>)) \<noteq> length [(7, 10) :: point] \<and>
   self_points example_after = Some [(7, 10)] \<and>
   self_feat_refs example_after = Some (Some [[0]]) \<and>
   self_feat_refs (apply_reset example_after (example_args\<lparr>a_points := []\<rparr>)) = Some None \<and>
   self_points0_pt (apply_reset example_after (example_args\<lparr>a_points := []\<rparr>)) = Some None \<and>
   self_w (apply_reset example_after (example_args\<lparr>a_points := []\<rparr>)) = self_w example_after \<and>
   map_option lr (self_w_optim (apply_reset example_after (example_args\<lparr>a_points := []\<rparr>)))
     = Some 0.001"
proof -
  have pts: "self_points example_after = Some [(7, 10)]"
    and refs: "self_feat_refs example_after = Some (Some [[0]])"
    and opt: "map_option lr (self_w_optim example_after) = Some 0.001"
    by (simp_all add: example_after_def example_ready_def)
  have len: "length (a_points (example_args\<lparr>a_points := []\<rparr>)) \<noteq> length [(7, 10) :: point]"
    by simp
  have hyp: "a_reset (example_args\<lparr>a_points := []\<rparr>) \<or>
      (\<exists>ps. self_points example_after = Some ps \<and>
            length (a_points (example_args\<lparr>a_points := []\<rparr>)) \<noteq> length ps)"
    using pts len by blast
  show ?thesis
    using reset_clears_refs_keeps_latent [OF hyp] pts refs opt len by simp
qed

text \<open>
  C4 as stated fails for the snapshot: after a call with \<^verbatim>\<open>reset\<close> true the attribute
  \<^verbatim>\<open>self.feat0_resize\<close> still holds the feature map of the earlier drag step.
\<close>

theorem reset_keeps_snapshot_counterexample:
  "a_reset (example_args\<lparr>a_is_drag := False, a_reset := True\<rparr>) \<and>
   render_drag_impl example_env example_after empty_result
     (example_args\<lparr>a_is_drag := False, a_reset := True\<rparr>) =
     (None,
      example_after\<lparr>self_feat_refs := Some None, self_points0_pt := Some None\<rparr>,
      empty_result\<lparr>r_image := Some (Tensor [3, 1, 1] [0, 0, 0])\<rparr>) \<and>
   self_feat0_resize (example_after\<lparr>self_feat_refs := Some None, self_points0_pt := Some None\<rparr>)
     = Some example_feat"
  using example_plain_run by (simp add: example_after_def)

lemma effective_ws_layers:
  "effective_ws w w0 = take 6 (optimized_layers w) @ drop 6 w0"
  by (simp add: effective_ws_def optimized_layers_def)

lemma optimized_layers_short:
  assumes "latent_matches w w0" "length (optimized_layers w) < 6"
  shows "drop 6 w0 = []"
  using assms by (cases w) (simp_all add: latent_matches_def optimized_layers_def)

lemma effective_ws_from_base:
  assumes "latent_matches w w0"
  shows "take 6 (effective_ws w w0) = take 6 (optimized_layers w) \<and>
         drop 6 (effective_ws w w0) = drop 6 w0 \<and>
         (\<forall>i. 6 \<le> i \<and> i < length (effective_ws w w0) \<longrightarrow> effective_ws w w0 ! i = w0 ! i)"
proof (cases "length (optimized_layers w) < 6")
  case True
  then have "drop 6 w0 = []" using assms by (rule optimized_layers_short [rotated])
  then show ?thesis using True by (auto simp: effective_ws_layers)
next
  case False
  then have six: "length (take 6 (optimized_layers w)) = 6" by simp
  have d: "drop 6 (effective_ws w w0) = drop 6 w0"
    using six by (simp add: effective_ws_layers)
  have t: "take 6 (effective_ws w w0) = take 6 (optimized_layers w)"
    using six by (simp add: effective_ws_layers)
  have "effective_ws w w0 ! i = w0 ! i" if "6 \<le> i" "i < length (effective_ws w w0)" for i
  proof -
    have "effective_ws w w0 ! i = drop 6 w0 ! (i - 6)"
      using that six by (simp add: effective_ws_layers nth_append)
    also have "\<dots> = w0 ! i"
      using that six by (simp add: effective_ws_layers)
    finally show ?thesis .
  qed
  then show ?thesis using d t by simp
qed

lemma render_drag_impl_synthesis_raises:
  assumes "self_G s = Some G" "self_w s = Some w" "self_w0 s = Some w0"
    and "synthesis env (self_is_old s) G (self_mean_latent s) (effective_ws w w0)
           (a_trunc_psi a) (a_noise_mode a) = Inl e"
  shows "fst (render_drag_impl env s res a) = Some e"
  using assms by (simp add: render_drag_impl_def Let_def apply_reset_frame)

lemma render_drag_impl_synthesis_image:
  assumes "self_G s = Some G" "self_w s = Some w" "self_w0 s = Some w0"
    and "synthesis env (self_is_old s) G (self_mean_latent s) (effective_ws w w0)
           (a_trunc_psi a) (a_noise_mode a) = Inr (img, feat)"
    and "render_drag_impl env s res a = (None, s', res')"
  shows "r_image res' = Some (postprocess env img (a_img_normalize a) (a_img_scale_db a)
                               (a_to_pil a))"
proof -
  let ?s1 = "apply_reset s a"
  let ?br = "if a_is_drag a
             then drag_branch env ?s1 res a G w (effective_ws w w0) w0 feat
             else (None, ?s1, res)"
  obtain e2 s2 res2 where br: "?br = (e2, s2, res2)" by (cases ?br) auto
  have "render_drag_impl env s res a =
      (case e2 of Some x \<Rightarrow> (Some x, s2, res2)
       | None \<Rightarrow> (None, s2, res2\<lparr>r_image := Some (postprocess env img (a_img_normalize a)
                                           (a_img_scale_db a) (a_to_pil a))\<rparr>))"
    using assms(1-4) br
    by (simp add: render_drag_impl_def Let_def apply_reset_frame split: option.splits)
  then show ?thesis using assms(5) by (cases e2) auto
qed

text \<open>
  C10: in a session whose latent has the shape that \<^verbatim>\<open>init_network\<close> builds, every call
  of \<^verbatim>\<open>_render_drag_impl\<close> runs the synthesis network on the latent \<open>ws\<close> made of the
  first six layers of the optimized latent (a single vector repeated six times) followed by
  the layers from index 6 on of \<^verbatim>\<open>self.w0\<close>, in both parameterizations: the layers of \<open>ws\<close>
  from index 6 on are those of \<^verbatim>\<open>self.w0\<close>, an exception of the synthesis network on \<open>ws\<close>
  is the exception of the call, and the image of a call that returns is the image the
  synthesis network made of \<open>ws\<close>.
\<close>

theorem synthesis_latent_upper_layers_from_base:
  assumes "self_G s = Some G" and "self_w s = Some w" and "self_w0 s = Some w0"
    and "latent_matches w w0"
  shows "\<exists>ws. ws = take 6 (optimized_layers w) @ drop 6 w0 \<and>
           take 6 ws = take 6 (optimized_layers w) \<and>
           drop 6 ws = drop 6 w0 \<and>
           (\<forall>i. 6 \<le> i \<and> i < length ws \<longrightarrow> ws ! i = w0 ! i) \<and>
           (\<forall>e. synthesis env (self_is_old s) G (self_mean_latent s) ws
                   (a_trunc_psi a) (a_noise_mode a) = Inl e \<longrightarrow>
                fst (render_drag_impl env s res a) = Some e) \<and>
           (\<forall>img feat s' res'.
                synthesis env (self_is_old s) G (self_mean_latent s) ws
                   (a_trunc_psi a) (a_noise_mode a) = Inr (img, feat) \<and>
                render_drag_impl env s res a = (None, s', res') \<longrightarrow>
                r_image res' = Some (postprocess env img (a_img_normalize a)
                                       (a_img_scale_db a) (a_to_pil a)))"
proof -
  have ws: "effective_ws w w0 = take 6 (optimized_layers w) @ drop 6 w0"
    by (rule effective_ws_layers)
  note base = effective_ws_from_base [OF assms(4)]
  have raises: "\<forall>e. synthesis env (self_is_old s) G (self_mean_latent s) (effective_ws w w0)
                   (a_trunc_psi a) (a_noise_mode a) = Inl e \<longrightarrow>
                fst (render_drag_impl env s res a) = Some e"
    using render_drag_impl_synthesis_raises [OF assms(1-3)] by blast
  have image: "\<forall>img feat s' res'.
                synthesis env (self_is_old s) G (self_mean_latent s) (effective_ws w w0)
                   (a_trunc_psi a) (a_noise_mode a) = Inr (img, feat) \<and>
                render_drag_impl env s res a = (None, s', res') \<longrightarrow>
                r_image res' = Some (postprocess env img (a_img_normalize a)
                                       (a_img_scale_db a) (a_to_pil a))"
    using render_drag_impl_synthesis_image [OF assms(1-3)] by blast
  show ?thesis
    by (rule exI [of _ "effective_ws w w0"]) (intro conjI ws base [THEN conjunct1]
        base [THEN conjunct2, THEN conjunct1] base [THEN conjunct2, THEN conjunct2] raises image)
qed

theorem synthesis_latent_upper_layers_from_base_witness:
  "self_G example_single = Some example_net \<and>
   self_w example_single = Some (W2 [5]) \<and>
   self_w0 example_single = Some (replicate 8 [0]) \<and>
   latent_matches (W2 [5]) (replicate 8 [0]) \<and>
   take 6 (optimized_layers (W2 [5])) @ drop 6 (replicate 8 [0 :: real])
     = [[5], [5], [5], [5], [5], [5], [0], [0]] \<and>
   (\<exists>ws. ws = take 6 (optimized_layers (W2 [5])) @ drop 6 (replicate 8 [0]) \<and>
      take 6 ws = take 6 (optimized_layers (W2 [5])) \<and>
      drop 6 ws = drop 6 (replicate 8 [0]) \<and>
      (\<forall>i. 6 \<le> i \<and> i < length ws \<longrightarrow> ws ! i = replicate 8 [0] ! i) \<and>
      (\<forall>e. synthesis example_env (self_is_old example_single)
              example_net (self_mean_latent example_single) ws
              (a_trunc_psi example_args) (a_noise_mode example_args) = Inl e \<longrightarrow>
           fst (render_drag_impl example_env example_single
                  empty_result example_args) = Some e) \<and>
      (\<forall>img feat s' res'.
           synthesis example_env (self_is_old example_single)
              example_net (self_mean_latent example_single) ws
              (a_trunc_psi example_args) (a_noise_mode example_args) = Inr (img, feat) \<and>
           render_drag_impl example_env example_single
              empty_result example_args = (None, s', res') \<longrightarrow>
           r_image res' = Some (postprocess example_env img (a_img_normalize example_args)
                                  (a_img_scale_db example_args) (a_to_pil example_args))))"
proof -
  have G: "self_G example_single = Some example_net"
    and w: "self_w example_single = Some (W2 [5])"
    and w0: "self_w0 example_single = Some (replicate 8 [0])"
    by (simp_all add: example_single_def example_ready_def)
  have m: "latent_matches (W2 [5]) (replicate 8 [0])"
    by (simp add: latent_matches_def)
  have v: "take 6 (optimized_layers (W2 [5])) @ drop 6 (replicate 8 [0 :: real])
     = [[5], [5], [5], [5], [5], [5], [0], [0]]"
    by (simp add: optimized_layers_def eval_nat_numeral)
  show ?thesis
    by (intro conjI G w w0 m v
        synthesis_latent_upper_layers_from_base [OF G w w0 m])
qed

section \<open>What initialization and rendering leave alone\<close>

lemma get_pkl_data_frame:
  assumes "get_pkl_data env s pkl = (d, s')"
  shows "self_G s' = self_G s \<and> self_pkl s' = self_pkl s \<and> self_w0_seed s' = self_w0_seed s \<and>
         self_w_plus s' = self_w_plus s \<and> self_w0 s' = self_w0 s \<and> self_w s' = self_w s \<and>
         self_w_grad s' = self_w_grad s \<and> self_w_optim s' = self_w_optim s \<and>
         self_feat_refs s' = self_feat_refs s \<and> self_points0_pt s' = self_points0_pt s \<and>
         self_feat0_resize s' = self_feat0_resize s \<and> self_points s' = self_points s \<and>
         self_mean_latent s' = self_mean_latent s \<and> self_networks s' = self_networks s"
  using assms by (auto simp: get_pkl_data_def Let_def split: option.splits)

lemma make_network_frame:
  assumes "make_network env s pkl orig = (n, s')"
  shows "self_G s' = self_G s \<and> self_pkl s' = self_pkl s \<and> self_w0_seed s' = self_w0_seed s \<and>
         self_w_plus s' = self_w_plus s \<and> self_w0 s' = self_w0 s \<and> self_w s' = self_w s \<and>
         self_w_grad s' = self_w_grad s \<and> self_w_optim s' = self_w_optim s \<and>
         self_feat_refs s' = self_feat_refs s \<and> self_points0_pt s' = self_points0_pt s \<and>
         self_feat0_resize s' = self_feat0_resize s \<and> self_points s' = self_points s"
  using assms by (auto simp: make_network_def split: if_splits sum.splits)

lemma get_network_frame:
  assumes "get_network env s pkl_arg key = (n, s')"
  shows "self_G s' = self_G s \<and> self_pkl s' = self_pkl s \<and> self_w0_seed s' = self_w0_seed s \<and>
         self_w_plus s' = self_w_plus s \<and> self_w0 s' = self_w0 s \<and> self_w s' = self_w s \<and>
         self_w_grad s' = self_w_grad s \<and> self_w_optim s' = self_w_optim s \<and>
         self_feat_refs s' = self_feat_refs s \<and> self_points0_pt s' = self_points0_pt s \<and>
         self_feat0_resize s' = self_feat0_resize s \<and> self_points s' = self_points s"
proof (cases pkl_arg)
  case None
  then show ?thesis using assms by (simp add: get_network_def)
next
  case (Some pkl)
  obtain d s2 where gd: "get_pkl_data env s pkl = (d, s2)"
    by (cases "get_pkl_data env s pkl") auto
  note f2 = get_pkl_data_frame [OF gd]
  show ?thesis
  proof (cases d)
    case (Inl e)
    then show ?thesis using assms Some gd f2 by (simp add: get_network_def)
  next
    case (Inr data)
    show ?thesis
    proof (cases "data key")
      case None
      then show ?thesis using assms Some gd f2 Inr by (simp add: get_network_def)
    next
      case orig: (Some orig_net)
      show ?thesis
      proof (cases "self_networks s2 (pkl, key)")
        case (Some net)
        then show ?thesis using assms \<open>pkl_arg = Some pkl\<close> gd f2 Inr orig
          by (simp add: get_network_def)
      next
        case None
        obtain net s3 where mk: "make_network env s2 pkl orig_net = (net, s3)"
          by (cases "make_network env s2 pkl orig_net") auto
        note f3 = make_network_frame [OF mk]
        have "s' = s3\<lparr>self_networks := (self_networks s3)((pkl, key) \<mapsto> net)\<rparr>"
          using assms \<open>pkl_arg = Some pkl\<close> gd Inr orig None mk by (auto simp: get_network_def)
        then show ?thesis using f2 f3 by simp
      qed
    qed
  qed
qed

lemma render_init_failure:
  assumes "init_decision s a = Inr True"
    and "get_network env (s\<lparr>self_pkl := Some (a_pkl a)\<rparr>) (a_pkl a) ''G_ema'' = (Inl e, s1)"
  shows "render env s a =
           (s1, True, Inr (empty_result\<lparr>r_init_net := Some True, r_error := Some e\<rparr>))"
  using assms by (simp add: render_def init_network_def result_to_cpu_def empty_result_def)

lemma init_decision_iff:
  assumes "a_pkl a = Some p" "a_w0_seed a = Some n" "a_w_plus a = Some b" "a_reset_w a = Some rw"
  shows "init_decision s a = Inr (self_G s = None \<or> (\<exists>q. self_pkl s = Some q \<and> q \<noteq> Some p) \<or>
           (\<exists>m. self_w0_seed s = Some m \<and> m \<noteq> n) \<or> (\<exists>c. self_w_plus s = Some c \<and> c \<noteq> b) \<or> rw)"
  using assms by (auto simp: init_decision_def attr_differs_def split: option.splits)

lemma network_details_init_net:
  "r_init_net (snd (network_details old G res)) = r_init_net res"
  "r_image (snd (network_details old G res)) = r_image res"
  by (simp_all add: network_details_def)

lemma set_input_transform_init_net:
  "r_init_net (snd (set_input_transform env t G res)) = r_init_net res"
  "r_image (snd (set_input_transform env t G res)) = r_image res"
  by (simp_all add: set_input_transform_def split: option.splits)

lemma init_network_init_net:
  assumes "init_network env s res a = (e, s', res')"
  shows "r_init_net res' = r_init_net res \<and> r_image res' = r_image res"
proof -
  obtain n s1 where gn: "get_network env (s\<lparr>self_pkl := Some (a_pkl a)\<rparr>) (a_pkl a) ''G_ema'' = (n, s1)"
    by (cases "get_network env (s\<lparr>self_pkl := Some (a_pkl a)\<rparr>) (a_pkl a) ''G_ema''") auto
  show ?thesis
  proof (cases n)
    case (Inl x)
    then show ?thesis using assms gn by (simp add: init_network_def)
  next
    case (Inr G0)
    obtain G1 res1 where nd: "network_details (self_is_old s1) G0 res = (G1, res1)"
      by (cases "network_details (self_is_old s1) G0 res") auto
    obtain G res2 where st: "set_input_transform env (a_input_transform a) G1 res1 = (G, res2)"
      by (cases "set_input_transform env (a_input_transform a) G1 res1") auto
    have r1: "r_init_net res1 = r_init_net res \<and> r_image res1 = r_image res"
      using network_details_init_net [of "self_is_old s1" G0 res] nd by simp
    have r2: "r_init_net res2 = r_init_net res1 \<and> r_image res2 = r_image res1"
      using set_input_transform_init_net [of env "a_input_transform a" G1 res1] st by simp
    have "res' = res2"
      using assms gn Inr nd st
      by (auto simp: init_network_def Let_def split: sum.splits prod.splits)
    then show ?thesis using r1 r2 by simp
  qed
qed

lemma drag_supervision_res:
  assumes "drag_supervision env s res a G w ws w0 fr ps = (e, s', res')"
  shows "r_init_net res' = r_init_net res \<and> r_error res' = r_error res \<and> self_G s' = self_G s"
  using assms
  by (auto simp: drag_supervision_def optimize_def Let_def
      split: prod.splits option.splits sum.splits if_splits)

lemma drag_tracking_res:
  assumes "drag_tracking s res a G fr = (e, s', res')"
  shows "r_init_net res' = r_init_net res \<and> r_error res' = r_error res \<and> self_G s' = self_G s"
  using assms by (auto simp: drag_tracking_def Let_def split: prod.splits option.splits)

lemma drag_branch_res:
  assumes "drag_branch env s res a G w ws w0 feat = (e, s', res')"
  shows "r_init_net res' = r_init_net res \<and> r_error res' = r_error res \<and> self_G s' = self_G s"
proof -
  obtain e1 s1 fr where df: "drag_features env s a G feat = (e1, s1, fr)"
    by (cases "drag_features env s a G feat") auto
  note f1 = drag_features_frame [OF df]
  show ?thesis
  proof (cases e1)
    case (Some x)
    then show ?thesis using assms df f1 by (simp add: drag_branch_def)
  next
    case None
    obtain e2 s2 res2 where dt: "drag_tracking s1 res a G fr = (e2, s2, res2)"
      by (cases "drag_tracking s1 res a G fr") auto
    note f2 = drag_tracking_res [OF dt]
    show ?thesis
    proof (cases e2)
      case (Some x)
      then show ?thesis using assms df None dt f1 f2 by (simp add: drag_branch_def)
    next
      case e2: None
      have "drag_supervision env s2 res2 a G w ws w0 fr
              (case r_points res2 of None \<Rightarrow> [] | Some ps \<Rightarrow> ps) = (e, s', res')"
        using assms df None dt e2 by (simp add: drag_branch_def)
      from drag_supervision_res [OF this] show ?thesis using f1 f2 by simp
    qed
  qed
qed

lemma render_drag_impl_res:
  assumes "render_drag_impl env s res a = (e, s', res')"
  shows "r_init_net res' = r_init_net res \<and> r_error res' = r_error res \<and> self_G s' = self_G s \<and>
         (e = None \<longrightarrow> r_image res' \<noteq> None)"
proof (cases "self_G s")
  case None
  then show ?thesis using assms by (auto simp: render_drag_impl_def)
next
  case G: (Some G)
  show ?thesis
  proof (cases "self_w s")
    case None
    then show ?thesis using assms G by (auto simp: render_drag_impl_def)
  next
    case w: (Some w)
    show ?thesis
    proof (cases "self_w0 s")
      case None
      then show ?thesis using assms G w by (auto simp: render_drag_impl_def)
    next
      case w0: (Some w0)
      let ?s1 = "apply_reset s a"
      let ?ws = "effective_ws w w0"
      let ?syn = "synthesis env (self_is_old ?s1) G (self_mean_latent ?s1) ?ws
                (a_trunc_psi a) (a_noise_mode a)"
      show ?thesis
      proof (cases ?syn)
        case (Inl x)
        then show ?thesis using assms G w w0
          by (auto simp: render_drag_impl_def Let_def apply_reset_frame)
      next
        case (Inr p)
        obtain img feat where p: "p = (img, feat)" by (cases p) auto
        let ?br = "if a_is_drag a then drag_branch env ?s1 res a G w ?ws w0 feat
                    else (None, ?s1, res)"
        obtain e2 s2 res2 where br: "?br = (e2, s2, res2)" by (cases ?br) auto
        have f: "r_init_net res2 = r_init_net res \<and> r_error res2 = r_error res \<and>
                 self_G s2 = self_G s"
        proof (cases "a_is_drag a")
          case True
          then have "drag_branch env ?s1 res a G w ?ws w0 feat = (e2, s2, res2)" using br by simp
          from drag_branch_res [OF this] show ?thesis by (simp add: apply_reset_frame)
        next
          case False
          then show ?thesis using br by (auto simp: apply_reset_frame)
        qed
        have out: "render_drag_impl env s res a =
            (case e2 of Some x \<Rightarrow> (Some x, s2, res2)
             | None \<Rightarrow> (None, s2, res2\<lparr>r_image := Some (postprocess env img (a_img_normalize a)
                                           (a_img_scale_db a) (a_to_pil a))\<rparr>))"
          using G w w0 Inr p br by (simp add: render_drag_impl_def Let_def split: option.splits)
        show ?thesis using assms out f by (cases e2) auto
      qed
    qed
  qed
qed

section \<open>The instance, initialized\<close>

lemma example_names:
  "\<not> is_substring ''stylegan2-old'' ''stylegan2-ex''"
  "is_substring ''stylegan2'' ''stylegan2-ex''"
  "\<not> is_substring ''stylegan2-old'' ''stylegan3-ex''"
  "\<not> is_substring ''stylegan2'' ''stylegan3-ex''"
  "is_substring ''stylegan3'' ''stylegan3-ex''"
  "\<not> is_substring ''stylegan2-old'' ''missing''"
  by simp_all

lemma example_load:
  "load_pkl example_env False ''stylegan2-ex'' = Inr [''G_ema'' \<mapsto> example_net]"
  "load_pkl example_env False ''stylegan3-ex'' =
     Inr [''G_ema'' \<mapsto> example_net\<lparr>transform := Some ((2, 0, 0), (0, 2, 0), (0, 0, 2))\<rparr>]"
  "load_pkl example_env False ''missing'' = Inl (External ''cannot open'')"
  "build_net example_env pkl net = Inr net"
  by (simp_all add: example_env_def)

lemma example_get_network:
  assumes "self_pkl_data s ''stylegan2-ex'' = None"
    and "self_networks s (''stylegan2-ex'', ''G_ema'') = None"
  shows "get_network example_env s (Some ''stylegan2-ex'') ''G_ema'' =
   (Inr example_net,
    s\<lparr>self_is_old := False,
      self_pkl_data := (self_pkl_data s)(''stylegan2-ex'' \<mapsto> Inr [''G_ema'' \<mapsto> example_net]),
      self_networks := (self_networks s)((''stylegan2-ex'', ''G_ema'') \<mapsto> Inr example_net)\<rparr>)"
  using assms
  by (simp add: get_network_def get_pkl_data_def make_network_def example_names example_load
      Let_def)

lemma example_init:
  assumes "a_pkl a = Some ''stylegan2-ex''" "a_w0_seed a = Some 0" "a_w_plus a = Some True"
    "a_lr a = 0.001"
  shows "init_network example_env new_renderer res a =
   (None, example_ready,
    res\<lparr>r_img_resolution := Some 128, r_num_ws := Some 8, r_has_noise := Some True,
        r_has_input_transform := Some False\<rparr>)"
proof -
  let ?s0 = "new_renderer\<lparr>self_pkl := Some (Some ''stylegan2-ex'')\<rparr>"
  let ?s1 = "?s0\<lparr>self_is_old := False,
      self_pkl_data := (self_pkl_data ?s0)(''stylegan2-ex'' \<mapsto> Inr [''G_ema'' \<mapsto> example_net]),
      self_networks := (self_networks ?s0)((''stylegan2-ex'', ''G_ema'') \<mapsto> Inr example_net)\<rparr>"
  let ?res = "res\<lparr>r_img_resolution := Some 128, r_num_ws := Some 8,
         r_has_noise := Some True, r_has_input_transform := Some False\<rparr>"
  have gn: "get_network example_env ?s0 (Some ''stylegan2-ex'') ''G_ema'' = (Inr example_net, ?s1)"
    by (rule example_get_network) (simp_all add: new_renderer_def)
  have old: "self_is_old ?s1 = False" by simp
  have nd: "network_details False example_net res = (example_net, ?res)"
    by (simp add: network_details_def example_net_def)
  have st: "set_input_transform example_env t example_net ?res = (example_net, ?res)" for t
    by (simp add: set_input_transform_def)
  have rm: "run_mapping example_env False example_net r a = Inr (replicate 8 [0])" for r
    using assms by (simp add: run_mapping_def example_env_def example_net_def)
  show ?thesis
    using assms
    by (simp add: init_network_def gn nd st rm)
      (simp add: set_latents_def new_renderer_def example_ready_def)
qed

section \<open>When the session is initialized again\<close>

lemma set_latents_fresh:
  assumes "set_latents s w a = (None, s')"
  shows "self_w0 s' = Some w \<and>
         self_w_plus s' = Some (case a_w_plus a of None \<Rightarrow> True | Some b \<Rightarrow> b) \<and>
         self_w s' = Some (if (case a_w_plus a of None \<Rightarrow> True | Some b \<Rightarrow> b)
                           then W3 w else W2 (hd w)) \<and>
         self_w_grad s' = None \<and> self_w_optim s' = Some \<lparr>lr = a_lr a, moments = []\<rparr> \<and>
         self_feat_refs s' = Some None \<and> self_points0_pt s' = Some None \<and>
         self_G s' = self_G s \<and> self_pkl s' = self_pkl s \<and>
         self_w0_seed s' = self_w0_seed s \<and> self_is_old s' = self_is_old s"
  using assms
  by (auto simp: set_latents_def Let_def split: if_splits sum.splits list.splits)

lemma make_network_pkl:
  assumes "make_network env s pkl orig = (n, s')"
  shows "self_pkl s' = self_pkl s"
  using make_network_frame [OF assms] by simp

lemma init_network_fresh:
  assumes "init_network env s res a = (None, s1, res1)"
  shows "self_pkl s1 = Some (a_pkl a) \<and>
         self_w0_seed s1 = Some (case a_w0_seed a of None \<Rightarrow> 0 | Some n \<Rightarrow> n) \<and>
         self_w_plus s1 = Some (case a_w_plus a of None \<Rightarrow> True | Some b \<Rightarrow> b) \<and>
         (\<exists>G w. self_G s1 = Some G \<and> run_mapping env (self_is_old s1) G res1 a = Inr w \<and>
                self_w0 s1 = Some w \<and>
                self_w s1 = Some (if (case a_w_plus a of None \<Rightarrow> True | Some b \<Rightarrow> b)
                                  then W3 w else W2 (hd w))) \<and>
         self_w_grad s1 = None \<and> self_w_optim s1 = Some \<lparr>lr = a_lr a, moments = []\<rparr> \<and>
         self_feat_refs s1 = Some None \<and> self_points0_pt s1 = Some None"
proof -
  let ?gn = "get_network env (s\<lparr>self_pkl := Some (a_pkl a)\<rparr>) (a_pkl a) ''G_ema''"
  obtain n s0 where gn: "?gn = (n, s0)" by (cases ?gn) auto
  obtain G0 where G0: "n = Inr G0"
    using assms gn by (cases n) (simp_all add: init_network_def)
  obtain G1 r1 where nd: "network_details (self_is_old s0) G0 res = (G1, r1)"
    by (cases "network_details (self_is_old s0) G0 res") auto
  obtain G r2 where st: "set_input_transform env (a_input_transform a) G1 r1 = (G, r2)"
    by (cases "set_input_transform env (a_input_transform a) G1 r1") auto
  let ?s2 = "s0\<lparr>self_G := Some G,
                self_w0_seed := Some (case a_w0_seed a of None \<Rightarrow> 0 | Some n \<Rightarrow> n)\<rparr>"
  obtain w where rm: "run_mapping env (self_is_old s0) G r2 a = Inr w"
    using assms gn G0 nd st
    by (cases "run_mapping env (self_is_old s0) G r2 a") (simp_all add: init_network_def Let_def)
  have sl: "set_latents ?s2 w a = (None, s1)" and res1: "res1 = r2"
    using assms gn G0 nd st rm
    by (auto simp: init_network_def Let_def split: prod.splits)
  have pkl: "self_pkl s0 = Some (a_pkl a)"
    using get_network_frame [OF gn] by simp
  note f = set_latents_fresh [OF sl]
  have old: "self_is_old s1 = self_is_old s0" using f by simp
  have "self_G s1 = Some G \<and> run_mapping env (self_is_old s1) G res1 a = Inr w \<and>
        self_w0 s1 = Some w \<and>
        self_w s1 = Some (if (case a_w_plus a of None \<Rightarrow> True | Some b \<Rightarrow> b)
                          then W3 w else W2 (hd w))"
    using f rm res1 old by simp
  then have ex: "\<exists>G w. self_G s1 = Some G \<and> run_mapping env (self_is_old s1) G res1 a = Inr w \<and>
        self_w0 s1 = Some w \<and>
        self_w s1 = Some (if (case a_w_plus a of None \<Rightarrow> True | Some b \<Rightarrow> b)
                          then W3 w else W2 (hd w))"
    by blast
  show ?thesis using f pkl ex by simp
qed

lemma render_not_called:
  assumes "init_decision s a = Inr False"
  shows "render env s a =
     (fst (snd (render_drag_impl env s (empty_result\<lparr>r_init_net := Some False\<rparr>) a)), False,
      result_to_cpu a (snd (snd (render_drag_impl env s (empty_result\<lparr>r_init_net := Some False\<rparr>) a))))"
  using assms by (simp add: render_def render_drag_iex_def split: prod.splits)

lemma render_called_raises:
  assumes "init_decision s a = Inr True"
    and "init_network env s (empty_result\<lparr>r_init_net := Some True\<rparr>) a = (Some e, s1, res1)"
  shows "render env s a = (s1, True, Inr (res1\<lparr>r_error := Some e\<rparr>))"
proof -
  have "r_image res1 = None"
    using init_network_init_net [OF assms(2)] by (simp add: empty_result_def)
  then show ?thesis using assms by (simp add: render_def result_to_cpu_def)
qed

lemma render_called_ok:
  assumes "init_decision s a = Inr True"
    and "init_network env s (empty_result\<lparr>r_init_net := Some True\<rparr>) a = (None, s1, res1)"
  shows "render env s a =
     (fst (snd (render_drag_impl env s1 res1 a)), True,
      result_to_cpu a (snd (snd (render_drag_impl env s1 res1 a))))"
  using assms by (simp add: render_def render_drag_iex_def split: prod.splits)

lemma result_to_cpu_init_net:
  assumes "result_to_cpu a r = Inr res"
  shows "res = r"
  using assms by (auto simp: result_to_cpu_def split: option.splits if_splits)

text \<open>
  C5: when the caller supplies the keys \<^verbatim>\<open>pkl\<close>, \<^verbatim>\<open>w0_seed\<close>, \<^verbatim>\<open>w_plus\<close> and
  \<^verbatim>\<open>reset_w\<close>, \<^verbatim>\<open>render\<close> calls \<^verbatim>\<open>init_network\<close> exactly when there is no attribute
  \<^verbatim>\<open>G\<close>, or the session has a \<^verbatim>\<open>pkl\<close>, a \<^verbatim>\<open>w0_seed\<close> or a \<^verbatim>\<open>w_plus\<close> that differs
  from the one given, or \<^verbatim>\<open>reset_w\<close> is true, and a result that is returned holds that
  decision in \<^verbatim>\<open>init_net\<close>. Without the call the session goes to \<^verbatim>\<open>_render_drag_impl\<close>
  as it is. With the call, an exception of \<^verbatim>\<open>init_network\<close> ends the call with the
  error in the result; otherwise \<^verbatim>\<open>_render_drag_impl\<close> runs on the session that
  \<^verbatim>\<open>init_network\<close> made: the name, seed and parameterization given, the latent of the
  mapping network as \<^verbatim>\<open>w0\<close> and, whole or its first layer, as \<^verbatim>\<open>w\<close>, no gradient, a new
  optimizer with the learning rate given, and no reference vectors.
\<close>

theorem reinit_exactly_on_change:
  assumes "a_pkl a = Some p" and "a_w0_seed a = Some n" and "a_w_plus a = Some b"
    and "a_reset_w a = Some rw"
    and "render env s a = (s', called, out)"
  shows "(called \<longleftrightarrow> self_G s = None \<or> (\<exists>q. self_pkl s = Some q \<and> q \<noteq> Some p) \<or>
            (\<exists>m. self_w0_seed s = Some m \<and> m \<noteq> n) \<or>
            (\<exists>c. self_w_plus s = Some c \<and> c \<noteq> b) \<or> rw) \<and>
         (\<forall>res. out = Inr res \<longrightarrow> r_init_net res = Some called) \<and>
         (\<not> called \<longrightarrow>
            s' = fst (snd (render_drag_impl env s (empty_result\<lparr>r_init_net := Some False\<rparr>) a))) \<and>
         (called \<longrightarrow>
            (\<exists>e1 s1 res1.
               init_network env s (empty_result\<lparr>r_init_net := Some True\<rparr>) a = (e1, s1, res1) \<and>
               (e1 \<noteq> None \<longrightarrow> s' = s1 \<and> out = Inr (res1\<lparr>r_error := e1\<rparr>)) \<and>
               (e1 = None \<longrightarrow>
                  s' = fst (snd (render_drag_impl env s1 res1 a)) \<and>
                  self_pkl s1 = Some (Some p) \<and> self_w0_seed s1 = Some n \<and>
                  self_w_plus s1 = Some b \<and>
                  (\<exists>G w. self_G s1 = Some G \<and>
                         run_mapping env (self_is_old s1) G res1 a = Inr w \<and>
                         self_w0 s1 = Some w \<and>
                         self_w s1 = Some (if b then W3 w else W2 (hd w))) \<and>
                  self_w_grad s1 = None \<and>
                  self_w_optim s1 = Some \<lparr>lr = a_lr a, moments = []\<rparr> \<and>
                  self_feat_refs s1 = Some None \<and> self_points0_pt s1 = Some None)))"
proof -
  define d where "d \<longleftrightarrow> self_G s = None \<or> (\<exists>q. self_pkl s = Some q \<and> q \<noteq> Some p) \<or>
            (\<exists>m. self_w0_seed s = Some m \<and> m \<noteq> n) \<or>
            (\<exists>c. self_w_plus s = Some c \<and> c \<noteq> b) \<or> rw"
  have dec: "init_decision s a = Inr d"
    using init_decision_iff [OF assms(1-4)] unfolding d_def .
  show ?thesis
  proof (cases d)
    case False
    then have dec': "init_decision s a = Inr False" using dec by simp
    let ?r = "render_drag_impl env s (empty_result\<lparr>r_init_net := Some False\<rparr>) a"
    have run: "s' = fst (snd ?r)" "called = False" "out = result_to_cpu a (snd (snd ?r))"
      using render_not_called [OF dec', of env] assms(5) by simp_all
    have flag: "r_init_net (snd (snd ?r)) = Some False"
      using render_drag_impl_res [of env s "empty_result\<lparr>r_init_net := Some False\<rparr>" a
          "fst ?r" "fst (snd ?r)" "snd (snd ?r)"] by simp
    have "r_init_net res = Some called" if "out = Inr res" for res
    proof -
      have "result_to_cpu a (snd (snd ?r)) = Inr res" using that run(3) by simp
      from result_to_cpu_init_net [OF this] show ?thesis using flag run(2) by simp
    qed
    then have "\<forall>res. out = Inr res \<longrightarrow> r_init_net res = Some called" by blast
    then show ?thesis using run False unfolding d_def by simp
  next
    case True
    then have dec': "init_decision s a = Inr True" using dec by simp
    let ?i = "init_network env s (empty_result\<lparr>r_init_net := Some True\<rparr>) a"
    obtain e1 s1 res1 where i: "?i = (e1, s1, res1)" by (cases ?i) auto
    have flag1: "r_init_net res1 = Some True"
      using init_network_init_net [OF i] by simp
    show ?thesis
    proof (cases e1)
      case (Some e)
      have run: "s' = s1" "called = True" "out = Inr (res1\<lparr>r_error := Some e\<rparr>)"
        using render_called_raises [OF dec' i [unfolded Some]] assms(5) by simp_all
      have "\<forall>res. out = Inr res \<longrightarrow> r_init_net res = Some called"
        using run flag1 by simp
      moreover have "\<exists>e1 s1 res1.
               init_network env s (empty_result\<lparr>r_init_net := Some True\<rparr>) a = (e1, s1, res1) \<and>
               (e1 \<noteq> None \<longrightarrow> s' = s1 \<and> out = Inr (res1\<lparr>r_error := e1\<rparr>)) \<and>
               (e1 = None \<longrightarrow>
                  s' = fst (snd (render_drag_impl env s1 res1 a)) \<and>
                  self_pkl s1 = Some (Some p) \<and> self_w0_seed s1 = Some n \<and>
                  self_w_plus s1 = Some b \<and>
                  (\<exists>G w. self_G s1 = Some G \<and>
                         run_mapping env (self_is_old s1) G res1 a = Inr w \<and>
                         self_w0 s1 = Some w \<and>
                         self_w s1 = Some (if b then W3 w else W2 (hd w))) \<and>
                  self_w_grad s1 = None \<and>
                  self_w_optim s1 = Some \<lparr>lr = a_lr a, moments = []\<rparr> \<and>
                  self_feat_refs s1 = Some None \<and> self_points0_pt s1 = Some None)"
        using i Some run by (intro exI [of _ e1] exI [of _ s1] exI [of _ res1]) simp
      ultimately show ?thesis using run True unfolding d_def by simp
    next
      case None
      let ?r = "render_drag_impl env s1 res1 a"
      have run: "s' = fst (snd ?r)" "called = True" "out = result_to_cpu a (snd (snd ?r))"
        using render_called_ok [OF dec' i [unfolded None]] assms(5) by simp_all
      have flag: "r_init_net (snd (snd ?r)) = Some True"
        using render_drag_impl_res [of env s1 res1 a "fst ?r" "fst (snd ?r)" "snd (snd ?r)"]
          flag1 by simp
      have "r_init_net res = Some called" if "out = Inr res" for res
      proof -
        have "result_to_cpu a (snd (snd ?r)) = Inr res" using that run(3) by simp
        from result_to_cpu_init_net [OF this] show ?thesis using flag run(2) by simp
      qed
      then have flagout: "\<forall>res. out = Inr res \<longrightarrow> r_init_net res = Some called" by blast
      note fresh = init_network_fresh [OF i [unfolded None]]
      have "\<exists>e1 s1 res1.
               init_network env s (empty_result\<lparr>r_init_net := Some True\<rparr>) a = (e1, s1, res1) \<and>
               (e1 \<noteq> None \<longrightarrow> s' = s1 \<and> out = Inr (res1\<lparr>r_error := e1\<rparr>)) \<and>
               (e1 = None \<longrightarrow>
                  s' = fst (snd (render_drag_impl env s1 res1 a)) \<and>
                  self_pkl s1 = Some (Some p) \<and> self_w0_seed s1 = Some n \<and>
                  self_w_plus s1 = Some b \<and>
                  (\<exists>G w. self_G s1 = Some G \<and>
                         run_mapping env (self_is_old s1) G res1 a = Inr w \<and>
                         self_w0 s1 = Some w \<and>
                         self_w s1 = Some (if b then W3 w else W2 (hd w))) \<and>
                  self_w_grad s1 = None \<and>
                  self_w_optim s1 = Some \<lparr>lr = a_lr a, moments = []\<rparr> \<and>
                  self_feat_refs s1 = Some None \<and> self_points0_pt s1 = Some None)"
        using i None run(1) fresh assms(1-3)
        by (intro exI [of _ e1] exI [of _ s1] exI [of _ res1]) simp
      then show ?thesis using run True flagout unfolding d_def by simp
    qed
  qed
qed

lemma example_plain_ready:
  assumes "\<not> a_is_drag a" and "a_points a = [(7, 10)]" and "\<not> a_reset a"
  shows "render_drag_impl example_env example_ready res a =
     (None, example_rendered, res\<lparr>r_image := Some (Tensor [3, 1, 1] [0, 0, 0])\<rparr>)"
proof -
  have syn: "synthesis example_env old G ml ws psi noise = Inr (Tensor [3, 1, 1] [0, 0, 0],
      [example_feat, example_feat, example_feat, example_feat, example_feat, example_feat])"
    for old G ml ws psi noise
    by (simp add: example_env_def)
  have pp: "postprocess example_env img nm db pil = img" for img nm db pil
    by (simp add: example_env_def)
  have flds: "self_G example_ready = Some example_net"
    "self_w example_ready = Some (W3 (replicate 8 [0]))"
    "self_w0 example_ready = Some (replicate 8 [0])"
    by (simp_all add: example_ready_def)
  have reset: "apply_reset example_ready a = example_rendered"
    using assms
    by (simp add: apply_reset_def reset_requested_def example_ready_def example_rendered_def)
  show ?thesis
    using assms(1) by (simp add: render_drag_impl_def flds syn pp reset Let_def)
qed

lemma example_plain_rendered:
  assumes "\<not> a_is_drag a" and "a_points a = [(7, 10)]" and "\<not> a_reset a"
  shows "render_drag_impl example_env example_rendered res a =
     (None, example_rendered, res\<lparr>r_image := Some (Tensor [3, 1, 1] [0, 0, 0])\<rparr>)"
proof -
  have syn: "synthesis example_env old G ml ws psi noise = Inr (Tensor [3, 1, 1] [0, 0, 0],
      [example_feat, example_feat, example_feat, example_feat, example_feat, example_feat])"
    for old G ml ws psi noise
    by (simp add: example_env_def)
  have pp: "postprocess example_env img nm db pil = img" for img nm db pil
    by (simp add: example_env_def)
  have flds: "self_G example_rendered = Some example_net"
    "self_w example_rendered = Some (W3 (replicate 8 [0]))"
    "self_w0 example_rendered = Some (replicate 8 [0])"
    by (simp_all add: example_rendered_def example_ready_def)
  have reset: "apply_reset example_rendered a = example_rendered"
    using assms
    by (simp add: apply_reset_def reset_requested_def example_ready_def example_rendered_def)
  show ?thesis
    using assms(1) by (simp add: render_drag_impl_def flds syn pp reset Let_def)
qed

lemma example_render_new:
  "render example_env new_renderer (example_args\<lparr>a_is_drag := False, a_to_pil := False\<rparr>) =
     (example_rendered, True,
      Inr (empty_result\<lparr>r_init_net := Some True, r_img_resolution := Some 128,
             r_num_ws := Some 8, r_has_noise := Some True, r_has_input_transform := Some False,
             r_image := Some (Tensor [3, 1, 1] [0, 0, 0])\<rparr>))"
proof -
  let ?a = "example_args\<lparr>a_is_drag := False, a_to_pil := False\<rparr>"
  have a: "a_pkl ?a = Some ''stylegan2-ex''" "a_w0_seed ?a = Some 0" "a_w_plus ?a = Some True"
    "a_lr ?a = 0.001"
    and plain: "\<not> a_is_drag ?a" "a_points ?a = [(7, 10)]" "\<not> a_reset ?a"
    by (simp_all add: example_args_def)
  have dec: "init_decision new_renderer ?a = Inr True"
    by (simp add: init_decision_def attr_differs_def new_renderer_def example_args_def)
  show ?thesis
    unfolding render_called_ok [OF dec example_init [OF a]] example_plain_ready [OF plain]
    by (simp add: result_to_cpu_def)
qed

lemma example_render_again:
  "render example_env example_rendered (example_args\<lparr>a_is_drag := False, a_to_pil := False\<rparr>) =
     (example_rendered, False,
      Inr (empty_result\<lparr>r_init_net := Some False,
             r_image := Some (Tensor [3, 1, 1] [0, 0, 0])\<rparr>))"
proof -
  let ?a = "example_args\<lparr>a_is_drag := False, a_to_pil := False\<rparr>"
  have plain: "\<not> a_is_drag ?a" "a_points ?a = [(7, 10)]" "\<not> a_reset ?a"
    by (simp_all add: example_args_def)
  have dec: "init_decision example_rendered ?a = Inr False"
    by (simp add: init_decision_def attr_differs_def example_rendered_def example_ready_def
        example_args_def)
  show ?thesis
    unfolding render_not_called [OF dec] example_plain_rendered [OF plain]
    by (simp add: result_to_cpu_def)
qed

theorem reinit_exactly_on_change_witness:
  "a_pkl (example_args\<lparr>a_is_drag := False, a_to_pil := False\<rparr>) = Some ''stylegan2-ex'' \<and>
   a_w0_seed (example_args\<lparr>a_is_drag := False, a_to_pil := False\<rparr>) = Some 0 \<and>
   a_w_plus (example_args\<lparr>a_is_drag := False, a_to_pil := False\<rparr>) = Some True \<and>
   a_reset_w (example_args\<lparr>a_is_drag := False, a_to_pil := False\<rparr>) = Some False \<and>
   self_G new_renderer = None \<and>
   render example_env new_renderer (example_args\<lparr>a_is_drag := False, a_to_pil := False\<rparr>) =
     (example_rendered, True,
      Inr (empty_result\<lparr>r_init_net := Some True, r_img_resolution := Some 128,
             r_num_ws := Some 8, r_has_noise := Some True, r_has_input_transform := Some False,
             r_image := Some (Tensor [3, 1, 1] [0, 0, 0])\<rparr>)) \<and>
   self_w0 example_rendered = Some (replicate 8 [0]) \<and>
   self_w example_rendered = Some (W3 (replicate 8 [0])) \<and>
   self_w_optim example_rendered = Some \<lparr>lr = 0.001, moments = []\<rparr> \<and>
   self_feat_refs example_rendered = Some None \<and>
   self_G example_rendered = Some example_net \<and>
   self_pkl example_rendered = Some (Some ''stylegan2-ex'') \<and>
   self_w0_seed example_rendered = Some 0 \<and> self_w_plus example_rendered = Some True \<and>
   render example_env example_rendered (example_args\<lparr>a_is_drag := False, a_to_pil := False\<rparr>) =
     (example_rendered, False,
      Inr (empty_result\<lparr>r_init_net := Some False,
             r_image := Some (Tensor [3, 1, 1] [0, 0, 0])\<rparr>))"
proof -
  let ?a = "example_args\<lparr>a_is_drag := False, a_to_pil := False\<rparr>"
  have keys: "a_pkl ?a = Some ''stylegan2-ex''" "a_w0_seed ?a = Some 0"
    "a_w_plus ?a = Some True" "a_reset_w ?a = Some False"
    by (simp_all add: example_args_def)
  have new: "self_G new_renderer = None" by (simp add: new_renderer_def)
  have sess: "self_w0 example_rendered = Some (replicate 8 [0])"
    "self_w example_rendered = Some (W3 (replicate 8 [0]))"
    "self_w_optim example_rendered = Some \<lparr>lr = 0.001, moments = []\<rparr>"
    "self_feat_refs example_rendered = Some None"
    "self_G example_rendered = Some example_net"
    "self_pkl example_rendered = Some (Some ''stylegan2-ex'')"
    "self_w0_seed example_rendered = Some 0" "self_w_plus example_rendered = Some True"
    by (simp_all add: example_rendered_def example_ready_def)
  note first = reinit_exactly_on_change [OF keys example_render_new]
  note again = reinit_exactly_on_change [OF keys example_render_again]
  show ?thesis
    using first again keys new sess example_render_new example_render_again
    by (intro conjI) (rule keys new sess example_render_new example_render_again)+
qed

section \<open>A generator that cannot be loaded\<close>

lemma example_missing:
  assumes "self_pkl_data s ''missing'' = None"
  shows "get_network example_env s (Some ''missing'') ''G_ema'' =
   (Inl (External ''cannot open''),
    s\<lparr>self_is_old := False,
      self_pkl_data := (self_pkl_data s)(''missing'' \<mapsto> Inl (External ''cannot open''))\<rparr>)"
  using assms
  by (simp add: get_network_def get_pkl_data_def example_names example_load Let_def)

lemma example_missing_decision:
  "init_decision example_rendered (example_args\<lparr>a_pkl := Some ''missing''\<rparr>) = Inr True"
  by (simp add: init_decision_def attr_differs_def example_rendered_def example_ready_def
      example_args_def)

lemma example_missing_network:
  "get_network example_env
     (example_rendered\<lparr>self_pkl := Some (a_pkl (example_args\<lparr>a_pkl := Some ''missing''\<rparr>))\<rparr>)
     (a_pkl (example_args\<lparr>a_pkl := Some ''missing''\<rparr>)) ''G_ema'' =
   (Inl (External ''cannot open''),
    example_rendered\<lparr>self_pkl := Some (Some ''missing''),
      self_pkl_data := (self_pkl_data example_rendered)(''missing'' \<mapsto> Inl (External ''cannot open''))\<rparr>)"
proof -
  have "self_pkl_data (example_rendered\<lparr>self_pkl := Some (Some ''missing'')\<rparr>) ''missing'' = None"
    by (simp add: example_rendered_def example_ready_def)
  from example_missing [OF this] show ?thesis
    by (simp add: example_rendered_def example_ready_def)
qed

text \<open>
  C6, as the code has it: when \<^verbatim>\<open>render\<close> decides to initialize and \<^verbatim>\<open>get_network\<close>
  raises, \<^verbatim>\<open>render\<close> returns a result that holds \<^verbatim>\<open>init_net\<close> and the error and nothing
  else (no image, no points, no stop flag: \<^verbatim>\<open>_render_drag_impl\<close> is not called, the
  session is the one \<^verbatim>\<open>get_network\<close> left), and the session keeps its generator,
  latents, optimizer, seed, parameterization, reference vectors, initial point tensor,
  snapshot and tracked points; its \<^verbatim>\<open>pkl\<close> is the name that was asked for.
\<close>

theorem failed_load_reports_error_only:
  assumes "init_decision s a = Inr True"
    and "get_network env (s\<lparr>self_pkl := Some (a_pkl a)\<rparr>) (a_pkl a) ''G_ema'' = (Inl e, s1)"
  shows "\<exists>res. render env s a = (s1, True, Inr res) \<and>
           res = empty_result\<lparr>r_init_net := Some True, r_error := Some e\<rparr> \<and>
           r_error res = Some e \<and> r_image res = None \<and> r_points res = None \<and>
           r_stop res = None \<and>
           self_G s1 = self_G s \<and> self_w s1 = self_w s \<and> self_w_grad s1 = self_w_grad s \<and>
           self_w0 s1 = self_w0 s \<and> self_w_optim s1 = self_w_optim s \<and>
           self_w0_seed s1 = self_w0_seed s \<and> self_w_plus s1 = self_w_plus s \<and>
           self_feat_refs s1 = self_feat_refs s \<and> self_points0_pt s1 = self_points0_pt s \<and>
           self_feat0_resize s1 = self_feat0_resize s \<and> self_points s1 = self_points s \<and>
           self_pkl s1 = Some (a_pkl a)"
proof -
  let ?res = "empty_result\<lparr>r_init_net := Some True, r_error := Some e\<rparr>"
  have run: "render env s a = (s1, True, Inr ?res)"
    using render_init_failure [OF assms] .
  have res: "r_error ?res = Some e \<and> r_image ?res = None \<and> r_points ?res = None \<and>
         r_stop ?res = None"
    by (simp add: empty_result_def)
  from get_network_frame [OF assms(2)] have frame:
    "self_G s1 = self_G s \<and> self_w s1 = self_w s \<and> self_w_grad s1 = self_w_grad s \<and>
         self_w0 s1 = self_w0 s \<and> self_w_optim s1 = self_w_optim s \<and>
         self_w0_seed s1 = self_w0_seed s \<and> self_w_plus s1 = self_w_plus s \<and>
         self_feat_refs s1 = self_feat_refs s \<and> self_points0_pt s1 = self_points0_pt s \<and>
         self_feat0_resize s1 = self_feat0_resize s \<and> self_points s1 = self_points s \<and>
         self_pkl s1 = Some (a_pkl a)"
    by simp
  show ?thesis
    by (rule exI [of _ ?res]) (use run res frame in simp)
qed

theorem failed_load_reports_error_only_witness:
  "init_decision example_rendered (example_args\<lparr>a_pkl := Some ''missing''\<rparr>) = Inr True \<and>
   render example_env example_rendered (example_args\<lparr>a_pkl := Some ''missing''\<rparr>) =
     (example_rendered\<lparr>self_pkl := Some (Some ''missing''),
        self_pkl_data := (self_pkl_data example_rendered)(''missing'' \<mapsto> Inl (External ''cannot open''))\<rparr>,
      True, Inr (empty_result\<lparr>r_init_net := Some True, r_error := Some (External ''cannot open'')\<rparr>)) \<and>
   self_G (example_rendered\<lparr>self_pkl := Some (Some ''missing''),
        self_pkl_data := (self_pkl_data example_rendered)(''missing'' \<mapsto> Inl (External ''cannot open''))\<rparr>)
     = self_G example_rendered"
  using failed_load_reports_error_only [OF example_missing_decision example_missing_network]
    example_missing_decision by simp

text \<open>
  C6 as stated fails for the session state: the failed initialization of a loaded session
  has already recorded the name that could not be loaded in \<^verbatim>\<open>self.pkl\<close>, and the failure
  in the pickle cache.
\<close>

theorem failed_load_changes_pkl_counterexample:
  "render example_env example_rendered (example_args\<lparr>a_pkl := Some ''missing''\<rparr>) =
     (example_rendered\<lparr>self_pkl := Some (Some ''missing''),
        self_pkl_data := (self_pkl_data example_rendered)(''missing'' \<mapsto> Inl (External ''cannot open''))\<rparr>,
      True, Inr (empty_result\<lparr>r_init_net := Some True, r_error := Some (External ''cannot open'')\<rparr>)) \<and>
   self_pkl example_rendered = Some (Some ''stylegan2-ex'') \<and>
   self_pkl (example_rendered\<lparr>self_pkl := Some (Some ''missing''),
        self_pkl_data := (self_pkl_data example_rendered)(''missing'' \<mapsto> Inl (External ''cannot open''))\<rparr>)
     = Some (Some ''missing'') \<and>
   self_pkl_data example_rendered ''missing'' = None \<and>
   self_pkl_data (example_rendered\<lparr>self_pkl := Some (Some ''missing''),
        self_pkl_data := (self_pkl_data example_rendered)(''missing'' \<mapsto> Inl (External ''cannot open''))\<rparr>)
     ''missing'' = Some (Inl (External ''cannot open''))"
proof -
  have "self_pkl example_rendered = Some (Some ''stylegan2-ex'')"
    "self_pkl_data example_rendered ''missing'' = None"
    by (simp_all add: example_rendered_def example_ready_def)
  then show ?thesis
    using render_init_failure [OF example_missing_decision example_missing_network] by simp
qed

section \<open>An input transform that cannot be inverted\<close>














section \<open>The shape of the latents, and the call after a failed load\<close>

text \<open>
  The shape invariant assumed of the latents holds in every session that
  \<^verbatim>\<open>init_network\<close> has set up.
\<close>

lemma set_latents_matches:
  assumes "set_latents s w a = (None, s')"
  shows "\<exists>lat. self_w s' = Some lat \<and> self_w0 s' = Some w \<and> latent_matches lat w"
  using assms
  by (auto simp: set_latents_def Let_def latent_matches_def split: if_splits sum.splits list.splits)

lemma init_network_latent_matches:
  assumes "init_network env s res a = (None, s', res')"
  shows "\<exists>w w0. self_w s' = Some w \<and> self_w0 s' = Some w0 \<and> latent_matches w w0"
proof -
  let ?gn = "get_network env (s\<lparr>self_pkl := Some (a_pkl a)\<rparr>) (a_pkl a) ''G_ema''"
  obtain n s0 where gn: "?gn = (n, s0)" by (cases ?gn) auto
  obtain G0 where G0: "n = Inr G0"
    using assms gn by (cases n) (simp_all add: init_network_def)
  obtain G1 r1 where nd: "network_details (self_is_old s0) G0 res = (G1, r1)"
    by (cases "network_details (self_is_old s0) G0 res") auto
  obtain G r2 where st: "set_input_transform env (a_input_transform a) G1 r1 = (G, r2)"
    by (cases "set_input_transform env (a_input_transform a) G1 r1") auto
  let ?s2 = "s0\<lparr>self_G := Some G,
                self_w0_seed := Some (case a_w0_seed a of None \<Rightarrow> 0 | Some n \<Rightarrow> n)\<rparr>"
  obtain w where rm: "run_mapping env (self_is_old s0) G r2 a = Inr w"
    using assms gn G0 nd st
    by (cases "run_mapping env (self_is_old s0) G r2 a") (simp_all add: init_network_def Let_def)
  have "set_latents ?s2 w a = (None, s')"
    using assms gn G0 nd st rm by (auto simp: init_network_def Let_def split: prod.splits)
  from set_latents_matches [OF this] show ?thesis by blast
qed

text \<open>
  After the failed load above the session records the name that failed, so a second call
  with that name does not initialize again.
\<close>

lemma example_missing_not_retried:
  "init_decision
     (example_rendered\<lparr>self_pkl := Some (Some ''missing''),
        self_pkl_data := (self_pkl_data example_rendered)(''missing'' \<mapsto> Inl (External ''cannot open''))\<rparr>)
     (example_args\<lparr>a_pkl := Some ''missing''\<rparr>) = Inr False"
  by (simp add: init_decision_def attr_differs_def example_rendered_def example_ready_def
      example_args_def)

end
